theory Spec2Isabelle
  imports Complex_Main "HOL-Library.Log_Nat" "HOL-Library.Multiset"
begin

section \<open>Numbers: IEEE-754 binary64\<close>

text \<open>
  The numbers of the route comparison are JavaScript numbers: binary64 values with the
  two infinities and NaN. A finite number is \<open>Num x\<close> with \<open>x\<close> its exact value (\<open>Num 0\<close> is
  \<open>+0\<close>), and \<open>NegZero\<close> is \<open>-0\<close>. An arithmetic operation computes the exact result and
  rounds it to the nearest binary64 value, ties to the even significand: 53 significant
  bits, the smallest exponent of the last place \<open>emin\<close> (subnormal numbers), and overflow
  to an infinity when the rounded magnitude reaches \<open>2 ^ 1024\<close>.
\<close>

datatype number = Num rat | NegZero | PosInfinity | NegInfinity | NaN

definition emin :: int where
  "emin = - 1074"

definition overflow_threshold :: rat where
  "overflow_threshold = 2 ^ 1024"

text \<open>\<open>ilog2 x\<close> is the integer \<open>k\<close> with \<open>2 ^ k \<le> x < 2 ^ (k + 1)\<close>, for a positive \<open>x\<close>.\<close>

definition ilog2 :: "rat \<Rightarrow> int" where
  "ilog2 x =
     (if 1 \<le> x then bitlen \<lfloor>x\<rfloor> - 1
      else
        let j = bitlen \<lfloor>1 / x\<rfloor> - 1
        in if x * 2 ^ nat j = 1 then - j else - j - 1)"

definition round_even :: "rat \<Rightarrow> int" where
  "round_even y =
     (let n = \<lfloor>y\<rfloor>; d = y - of_int n
      in if d < 1 / 2 then n else if 1 / 2 < d then n + 1 else if even n then n else n + 1)"

definition ulp_exponent :: "rat \<Rightarrow> int" where
  "ulp_exponent x = max (ilog2 x - 52) emin"

definition round_magnitude :: "rat \<Rightarrow> rat" where
  "round_magnitude x =
     of_int (round_even (x / 2 powi ulp_exponent x)) * 2 powi ulp_exponent x"

text \<open>
  \<open>double x\<close> is the number nearest to the exact value \<open>x\<close>: what an operation returns
  for the exact result \<open>x\<close>, and what a decimal literal or a JSON number that denotes \<open>x\<close> is
  read as. The sign of a zero that an operation returns for an exact result 0 is set by
  the operation.
\<close>

definition double :: "rat \<Rightarrow> number" where
  "double x =
     (if x = 0 then Num 0
      else
        let y = round_magnitude \<bar>x\<bar> in
        if overflow_threshold \<le> y then (if x < 0 then NegInfinity else PosInfinity)
        else if y = 0 then (if x < 0 then NegZero else Num 0)
        else Num (if x < 0 then - y else y))"

definition finite_value :: "number \<Rightarrow> rat option" where
  "finite_value n = (case n of Num x \<Rightarrow> Some x | NegZero \<Rightarrow> Some 0 | _ \<Rightarrow> None)"

definition negative :: "number \<Rightarrow> bool" where
  "negative n =
     (case n of Num x \<Rightarrow> x < 0 | NegZero \<Rightarrow> True | NegInfinity \<Rightarrow> True | _ \<Rightarrow> False)"

definition zero :: "bool \<Rightarrow> number" where
  "zero neg = (if neg then NegZero else Num 0)"

definition infinity :: "bool \<Rightarrow> number" where
  "infinity neg = (if neg then NegInfinity else PosInfinity)"

definition number_add :: "number \<Rightarrow> number \<Rightarrow> number" where
  "number_add a b =
     (if a = NaN \<or> b = NaN then NaN
      else case (finite_value a, finite_value b) of
        (Some x, Some y) \<Rightarrow>
          if x + y = 0 then zero (a = NegZero \<and> b = NegZero) else double (x + y)
      | (Some x, None) \<Rightarrow> b
      | (None, Some y) \<Rightarrow> a
      | (None, None) \<Rightarrow> if negative a = negative b then a else NaN)"

definition number_sub :: "number \<Rightarrow> number \<Rightarrow> number" where
  "number_sub a b =
     (if a = NaN \<or> b = NaN then NaN
      else case (finite_value a, finite_value b) of
        (Some x, Some y) \<Rightarrow>
          if x - y = 0 then zero (a = NegZero \<and> b = Num 0) else double (x - y)
      | (Some x, None) \<Rightarrow> infinity (\<not> negative b)
      | (None, Some y) \<Rightarrow> a
      | (None, None) \<Rightarrow> if negative a = negative b then NaN else a)"

definition number_mul :: "number \<Rightarrow> number \<Rightarrow> number" where
  "number_mul a b =
     (if a = NaN \<or> b = NaN then NaN
      else case (finite_value a, finite_value b) of
        (Some x, Some y) \<Rightarrow>
          if x * y = 0 then zero (negative a \<noteq> negative b) else double (x * y)
      | (Some x, None) \<Rightarrow> if x = 0 then NaN else infinity (negative a \<noteq> negative b)
      | (None, Some y) \<Rightarrow> if y = 0 then NaN else infinity (negative a \<noteq> negative b)
      | (None, None) \<Rightarrow> infinity (negative a \<noteq> negative b))"

definition number_div :: "number \<Rightarrow> number \<Rightarrow> number" where
  "number_div a b =
     (if a = NaN \<or> b = NaN then NaN
      else case (finite_value a, finite_value b) of
        (Some x, Some y) \<Rightarrow>
          if y = 0 then (if x = 0 then NaN else infinity (negative a \<noteq> negative b))
          else if x = 0 then zero (negative a \<noteq> negative b)
          else double (x / y)
      | (Some x, None) \<Rightarrow> zero (negative a \<noteq> negative b)
      | (None, Some y) \<Rightarrow> infinity (negative a \<noteq> negative b)
      | (None, None) \<Rightarrow> NaN)"

text \<open>
  The comparison \<open>a <= b\<close> of two numbers: false when one is NaN, and the two zeros
  are equal.
\<close>

definition number_le :: "number \<Rightarrow> number \<Rightarrow> bool" where
  "number_le a b \<longleftrightarrow>
     a \<noteq> NaN \<and> b \<noteq> NaN \<and>
     (a = NegInfinity \<or> b = PosInfinity \<or>
      (case (finite_value a, finite_value b) of (Some x, Some y) \<Rightarrow> x \<le> y | _ \<Rightarrow> False))"

text \<open>
  The strings \<open>toFixed(2)\<close> returns. \<open>Fixed n\<close> is the decimal string with two fraction
  digits that denotes \<open>n\<close> hundredths, so \<open>''1727.30''\<close> is \<open>Fixed 172730\<close> and \<open>''-0.01''\<close> is
  \<open>Fixed (- 1)\<close>; \<open>FixedMinusZero\<close> is \<open>''-0.00''\<close>. From \<open>10 ^ 21\<close> on \<open>toFixed\<close> returns what
  \<open>String(x)\<close> returns, the shortest decimal in exponent notation that reads back as \<open>x\<close>:
  \<open>Exponential x\<close>. The other three are \<open>''Infinity''\<close>, \<open>''-Infinity''\<close> and \<open>''NaN''\<close>.

  \<open>toFixed(2)\<close> rounds the exact value of its number to the nearest hundredth, and of two
  nearest ones it takes the larger magnitude (the sign is split off first, then the
  larger \<open>n\<close> is picked); \<open>-0\<close> prints as \<open>''0.00''\<close>. \<open>parseFloat\<close> reads a string as the number
  nearest to the decimal it denotes.
\<close>

datatype numstr = Fixed int | FixedMinusZero | Exponential rat
  | InfinityString | MinusInfinityString | NaNString

definition toFixed2 :: "number \<Rightarrow> numstr" where
  "toFixed2 v =
     (case v of
        NaN \<Rightarrow> NaNString
      | PosInfinity \<Rightarrow> InfinityString
      | NegInfinity \<Rightarrow> MinusInfinityString
      | NegZero \<Rightarrow> Fixed 0
      | Num x \<Rightarrow>
          if 10 ^ 21 \<le> \<bar>x\<bar> then Exponential x
          else
            let n = \<lfloor>\<bar>x\<bar> * 100 + 1 / 2\<rfloor> in
            if x < 0 then (if n = 0 then FixedMinusZero else Fixed (- n)) else Fixed n)"

definition parseFloat :: "numstr \<Rightarrow> number" where
  "parseFloat s =
     (case s of
        Fixed n \<Rightarrow> double (of_int n / 100)
      | FixedMinusZero \<Rightarrow> NegZero
      | Exponential x \<Rightarrow> double x
      | InfinityString \<Rightarrow> PosInfinity
      | MinusInfinityString \<Rightarrow> NegInfinity
      | NaNString \<Rightarrow> NaN)"

text \<open>A number whose finite value is a multiple of the smallest subnormal number.\<close>

definition on_grid :: "number \<Rightarrow> bool" where
  "on_grid n \<longleftrightarrow> n \<noteq> NaN \<and> (\<forall>x. finite_value n = Some x \<longrightarrow> (\<exists>k. x = of_int k * 2 powi emin))"

section \<open>Exchange rate service (services/exchangeRate)\<close>

record rate_data =
  rate :: rat
  timestamp :: int
  rd_from :: string
  rd_to :: string
  mock :: bool

record cache_entry =
  ce_data :: rate_data
  ce_timestamp :: int

text \<open>
  The service object: its cache (a \<open>Map\<close> from key strings to entries) and, as the trace
  of its effect on the outside, the list of pairs it has requested from the upstream
  provider with \<open>axios.get\<close>, oldest first.
\<close>

record exchange_service =
  cache :: "string \<rightharpoonup> cache_entry"
  upstream_calls :: "(string \<times> string) list"

text \<open>
  What \<open>axios.get\<close> gives: a response body with its \<open>result\<close> and \<open>conversion_rate\<close>
  fields, or a rejection with a message.
\<close>

datatype upstream_reply = Reply string rat | RequestFailed string

text \<open>The constructor: an empty cache, and nothing requested yet.\<close>

definition new_exchange_service :: exchange_service where
  "new_exchange_service = \<lparr>cache = Map.empty, upstream_calls = []\<rparr>"

definition cacheExpiry :: int where
  "cacheExpiry = 60000"

definition cacheKey :: "string \<Rightarrow> string \<Rightarrow> string" where
  "cacheKey f t = f @ ''_'' @ t"

definition mockRates :: "string \<rightharpoonup> rat" where
  "mockRates = [''USD_MXN'' \<mapsto> 35 / 2, ''USD_PHP'' \<mapsto> 56, ''USD_INR'' \<mapsto> 83,
                ''USD_NGN'' \<mapsto> 1550]"

definition getMockRate :: "int \<Rightarrow> string \<Rightarrow> string \<Rightarrow> rate_data" where
  "getMockRate now f t =
     \<lparr>rate = (case mockRates (cacheKey f t) of Some r \<Rightarrow> r | None \<Rightarrow> 1),
      timestamp = now, rd_from = f, rd_to = t, mock = True\<rparr>"

text \<open>
  The fallback table is looked up by its four own keys (a key such as \<open>__proto__\<close>, which
  a JavaScript object also answers, is left out); a pair it does not hold gets the rate 1.

  \<open>getRate\<close> reads the clock up to three times: \<open>t0\<close> in the freshness test, \<open>t1\<close> when it
  builds the result object (fetched or mock), \<open>t2\<close> when it writes the cache entry.
\<close>

definition getRate ::
  "exchange_service \<Rightarrow> (string \<Rightarrow> string \<Rightarrow> upstream_reply) \<Rightarrow> int \<times> int \<times> int \<Rightarrow>
     string \<Rightarrow> string \<Rightarrow> rate_data \<times> exchange_service" where
  "getRate svc axios_get ts f t =
     (case ts of (t0, t1, t2) \<Rightarrow>
       let fetch =
         (let svc' = svc\<lparr>upstream_calls := upstream_calls svc @ [(f, t)]\<rparr> in
          case axios_get f t of
            Reply result conversion_rate \<Rightarrow>
              if result \<noteq> ''success'' then (getMockRate t1 f t, svc')
              else
                let r = \<lparr>rate = conversion_rate, timestamp = t1, rd_from = f, rd_to = t,
                         mock = False\<rparr>
                in (r, svc'\<lparr>cache := (cache svc')(cacheKey f t \<mapsto>
                          \<lparr>ce_data = r, ce_timestamp = t2\<rparr>)\<rparr>)
          | RequestFailed msg \<Rightarrow> (getMockRate t1 f t, svc'))
       in
       (case cache svc (cacheKey f t) of
          Some cached \<Rightarrow>
            (if t0 - ce_timestamp cached < cacheExpiry then (ce_data cached, svc) else fetch)
        | None \<Rightarrow> fetch))"

section \<open>Route comparison (POST /compare-routes)\<close>

record route =
  provider :: string
  route_type :: string
  amountSent :: number
  fee :: number
  exchangeRate :: number
  estimatedTime :: string
  amountReceived :: numstr
  savings :: numstr
  recommended :: bool
  description :: string
  savingsPercent :: "numstr option"

text \<open>
  The three route objects as the handler builds them, before the savings pass: \<open>savings\<close>
  is the number 0 (written \<open>Fixed 0\<close> here; the savings pass replaces it) and
  \<open>savingsPercent\<close> is not there yet (\<open>None\<close>). A literal such as \<open>0.01\<close> is the number
  \<open>double (1 / 100)\<close>, and a product of three factors is computed from the left.
\<close>

definition initial_routes :: "number \<Rightarrow> number \<Rightarrow> route list" where
  "initial_routes amount r =
     [\<lparr>provider = ''SwiftBridge XRPL'', route_type = ''xrpl_direct'', amountSent = amount,
       fee = number_mul amount (double (1 / 100)),
       exchangeRate = number_mul r (double (997 / 1000)),
       estimatedTime = ''5-10 minutes'',
       amountReceived =
         toFixed2 (number_mul
           (number_mul (number_sub amount (number_mul amount (double (1 / 100)))) r)
           (double (997 / 1000))),
       savings = Fixed 0, recommended = True,
       description = ''Fast blockchain transfer via XRPL network'', savingsPercent = None\<rparr>,
      \<lparr>provider = ''Traditional Bank Transfer'', route_type = ''bank_transfer'',
       amountSent = amount,
       fee = number_add (number_mul amount (double (5 / 100))) (double 5),
       exchangeRate = number_mul r (double (97 / 100)),
       estimatedTime = ''1-3 business days'',
       amountReceived =
         toFixed2 (number_mul
           (number_mul
             (number_sub amount (number_add (number_mul amount (double (5 / 100))) (double 5)))
             r)
           (double (97 / 100))),
       savings = Fixed 0, recommended = False,
       description = ''Standard international wire transfer'', savingsPercent = None\<rparr>,
      \<lparr>provider = ''Competitor Service'', route_type = ''competitor'', amountSent = amount,
       fee = number_add (number_mul amount (double (15 / 1000))) (double 3),
       exchangeRate = number_mul r (double (99 / 100)),
       estimatedTime = ''1 business day'',
       amountReceived =
         toFixed2 (number_mul
           (number_mul
             (number_sub amount (number_add (number_mul amount (double (15 / 1000))) (double 3)))
             r)
           (double (99 / 100))),
       savings = Fixed 0, recommended = False,
       description = ''Third-party remittance service'', savingsPercent = None\<rparr>]"

text \<open>The \<open>forEach\<close> pass, for one route.\<close>

definition set_savings :: "number \<Rightarrow> route \<Rightarrow> route" where
  "set_savings traditionalAmount rt =
     (let saved = number_sub (parseFloat (amountReceived rt)) traditionalAmount in
      rt\<lparr>savings := toFixed2 saved,
         savingsPercent :=
           Some (toFixed2 (number_mul (number_div saved traditionalAmount) (double 100)))\<rparr>)"

text \<open>
  \<open>Array.prototype.sort\<close> with a comparator is a stable sort: an element is placed before
  the first later element it does not have to follow, which is when the comparator's
  number is not above 0. A comparator result NaN counts as \<open>+0\<close>.
\<close>

definition nonpositive :: "number \<Rightarrow> bool" where
  "nonpositive v =
     (case v of Num x \<Rightarrow> x \<le> 0 | NegZero \<Rightarrow> True | NegInfinity \<Rightarrow> True
      | PosInfinity \<Rightarrow> False | NaN \<Rightarrow> True)"

fun insert_by :: "('a \<Rightarrow> 'a \<Rightarrow> number) \<Rightarrow> 'a \<Rightarrow> 'a list \<Rightarrow> 'a list" where
  "insert_by cmp x [] = [x]"
| "insert_by cmp x (y # ys) =
     (if nonpositive (cmp x y) then x # y # ys else y # insert_by cmp x ys)"

definition js_sort :: "('a \<Rightarrow> 'a \<Rightarrow> number) \<Rightarrow> 'a list \<Rightarrow> 'a list" where
  "js_sort cmp xs = foldr (insert_by cmp) xs []"

definition by_received_desc :: "route \<Rightarrow> route \<Rightarrow> number" where
  "by_received_desc a b =
     number_sub (parseFloat (amountReceived b)) (parseFloat (amountReceived a))"

text \<open>
  The pricing of a request: \<open>amount\<close> and \<open>r\<close> are the amount of the request body and the
  rate of the rate service, which the handler holds as numbers.
\<close>

definition compareRoutes :: "rat \<Rightarrow> rat \<Rightarrow> route list" where
  "compareRoutes amount r =
     (let routes = initial_routes (double amount) (double r);
          traditionalAmount = parseFloat (amountReceived (routes ! 1))
      in js_sort by_received_desc (map (set_savings traditionalAmount) routes))"

text \<open>
  A response that ends the request with an error: the status code and the \<open>error\<close> text.
\<close>

datatype http_error = HttpError nat string

text \<open>
  The request body. A field is \<open>None\<close> when it is absent or null; \<open>amount\<close> is a JSON
  number and the currencies are JSON strings. \<open>!x\<close> holds of an absent field, of the
  number 0 and of the empty string.
\<close>

record compare_body =
  cb_amount :: "rat option"
  cb_fromCurrency :: "string option"
  cb_toCurrency :: "string option"

fun falsy_num :: "rat option \<Rightarrow> bool" where
  "falsy_num None = True"
| "falsy_num (Some x) = (x = 0)"

fun falsy_str :: "string option \<Rightarrow> bool" where
  "falsy_str None = True"
| "falsy_str (Some s) = (s = [])"

record compare_response =
  routes :: "route list"
  midMarketRate :: rat
  cr_timestamp :: int

definition compare_routes_handler ::
  "exchange_service \<Rightarrow> (string \<Rightarrow> string \<Rightarrow> upstream_reply) \<Rightarrow> int \<times> int \<times> int \<Rightarrow> int \<Rightarrow>
     compare_body \<Rightarrow> (http_error + compare_response) \<times> exchange_service" where
  "compare_routes_handler svc axios_get ts t_resp body =
     (if falsy_num (cb_amount body) \<or> falsy_str (cb_fromCurrency body)
         \<or> falsy_str (cb_toCurrency body)
      then (Inl (HttpError 400
              ''Missing required fields: amount, fromCurrency, toCurrency''), svc)
      else if the (cb_amount body) < 10
      then (Inl (HttpError 400 ''Minimum transfer amount is $10''), svc)
      else
        let (rateData, svc') =
              getRate svc axios_get ts (the (cb_fromCurrency body)) (the (cb_toCurrency body))
        in (Inr \<lparr>routes = compareRoutes (the (cb_amount body)) (rate rateData),
                  midMarketRate = rate rateData, cr_timestamp = t_resp\<rparr>, svc'))"

section \<open>The store (database/init.sql)\<close>

text \<open>
  The tables the transaction routes read and write, each a list of rows in insertion
  order, with the columns these routes use. Timestamps are milliseconds, as \<open>Date.now()\<close>
  counts them. Column precision (\<open>DECIMAL(10, 2)\<close>) is not modelled: a number is stored
  as it is given. \<open>transactions_id_seq\<close> is the next value of the \<open>SERIAL\<close> key.
\<close>

record recipient_row =
  rcp_id :: int
  rcp_user_id :: int
  payout_type :: string
  bank_name :: "string option"

record payment_method_row =
  pm_id :: int
  pm_user_id :: int

record transaction_row =
  tx_id :: int
  sender_id :: int
  recipient_id :: int
  payment_method_id :: int
  amount_sent :: rat
  currency_sent :: string
  amount_received :: "rat option"
  currency_received :: string
  exchange_rate :: "rat option"
  tx_fee :: "rat option"
  xrpl_tx_hash :: "string option"
  status :: string
  tx_route_type :: "string option"
  created_at :: int
  completed_at :: "int option"
  tx_notes :: "string option"

record store =
  recipients :: "recipient_row list"
  payment_methods :: "payment_method_row list"
  transactions :: "transaction_row list"
  transactions_id_seq :: int

text \<open>\<open>UPDATE transactions SET ... WHERE id = $n\<close>: one statement, on every row with the id.\<close>

definition update_transactions :: "int \<Rightarrow> (transaction_row \<Rightarrow> transaction_row) \<Rightarrow> store \<Rightarrow> store" where
  "update_transactions i f s =
     s\<lparr>transactions := map (\<lambda>r. if tx_id r = i then f r else r) (transactions s)\<rparr>"

section \<open>Payment and settlement services (services/payment, services/xrpl)\<close>

record payment_result =
  success :: bool
  pay_transactionId :: string

record xrpl_result =
  xrplTxHash :: string
  xrpAmount :: rat
  targetAmount :: rat

record payout_result =
  payoutId :: string
  payout_method :: string

text \<open>
  The three calls of the pipeline. A call returns its result or throws; a thrown error
  is \<open>Inl\<close> of its message. A wallet name such as \<open>'sender_wallet_' + senderId\<close> is the
  pair of the prefix and the id.
\<close>

record adapters =
  processPayment :: "int \<Rightarrow> rat \<Rightarrow> string \<Rightarrow> string + payment_result"
  processRemittance ::
    "string \<times> int \<Rightarrow> string \<times> int \<Rightarrow> rat \<Rightarrow> string \<Rightarrow> string \<Rightarrow> rat \<Rightarrow> string + xrpl_result"
  processPayout :: "recipient_row option \<Rightarrow> rat \<Rightarrow> string \<Rightarrow> string + payout_result"





section \<open>Background processing (processTransaction)\<close>

text \<open>
  The pipeline as one step on the store: \<open>now\<close> is the database clock at the final
  \<open>UPDATE\<close>. Whatever a stage throws is caught and written as \<open>failed\<close> with the message.
\<close>

definition processTransaction ::
  "adapters \<Rightarrow> int \<Rightarrow> store \<Rightarrow> int \<Rightarrow> int \<Rightarrow> int \<Rightarrow> int \<Rightarrow> rat \<Rightarrow> string \<Rightarrow> string \<Rightarrow> rat \<Rightarrow> rat
     \<Rightarrow> store" where
  "processTransaction ad now s transactionId senderId recipientId paymentMethodId amount
     fromCurrency toCurrency rate' received =
     (let catch = (\<lambda>msg. update_transactions transactionId
                     (\<lambda>r. r\<lparr>status := ''failed'', tx_notes := Some (''Error: '' @ msg)\<rparr>) s)
      in
      case processPayment ad paymentMethodId amount fromCurrency of
        Inl msg \<Rightarrow> catch msg
      | Inr paymentResult \<Rightarrow>
          if \<not> success paymentResult then catch ''Payment processing failed''
          else
            (case processRemittance ad (''sender_wallet_'', senderId)
                    (''recipient_wallet_'', recipientId) amount fromCurrency toCurrency rate' of
               Inl msg \<Rightarrow> catch msg
             | Inr xrplResult \<Rightarrow>
                 (let recipient = find (\<lambda>r. rcp_id r = recipientId) (recipients s) in
                  case processPayout ad recipient received toCurrency of
                    Inl msg \<Rightarrow> catch msg
                  | Inr payoutResult \<Rightarrow>
                      update_transactions transactionId
                        (\<lambda>r. r\<lparr>status := ''completed'', amount_received := Some received,
                               xrpl_tx_hash := Some (xrplTxHash xrplResult),
                               completed_at := Some now\<rparr>) s)))"

section \<open>Creating a transaction (POST /create)\<close>

record create_body =
  req_recipientId :: "int option"
  req_paymentMethodId :: "int option"
  req_amount :: "rat option"
  req_fromCurrency :: "string option"
  req_toCurrency :: "string option"
  req_routeType :: "string option"
  req_notes :: "string option"

fun falsy_int :: "int option \<Rightarrow> bool" where
  "falsy_int None = True"
| "falsy_int (Some x) = (x = 0)"

record create_response =
  transactionId :: int
  resp_status :: string
  message :: string
  estimatedCompletion :: int

text \<open>The arguments of the detached call of \<open>processTransaction\<close>.\<close>

record background_call =
  bg_transactionId :: int
  bg_senderId :: int
  bg_recipientId :: int
  bg_paymentMethodId :: int
  bg_amount :: rat
  bg_fromCurrency :: string
  bg_toCurrency :: string
  bg_exchangeRate :: rat
  bg_amountReceived :: rat


text \<open>The four validation failures of the handler, under the names the specification uses.\<close>

definition MissingFields :: http_error where
  "MissingFields = HttpError 400 ''Missing required fields''"

definition AmountOutOfRange :: http_error where
  "AmountOutOfRange = HttpError 400 ''Amount must be between $10 and $10,000''"

definition RecipientNotFound :: http_error where
  "RecipientNotFound = HttpError 404 ''Recipient not found or does not belong to you''"

definition PaymentMethodNotFound :: http_error where
  "PaymentMethodNotFound = HttpError 404 ''Payment method not found or does not belong to you''"

text \<open>
  \<open>INSERT INTO transactions ... RETURNING id\<close>: the columns the statement names; the
  others take their defaults (\<open>created_at\<close> the database clock, the rest null).
\<close>

definition insert_transaction ::
  "int \<Rightarrow> int \<Rightarrow> int \<Rightarrow> int \<Rightarrow> rat \<Rightarrow> string \<Rightarrow> string \<Rightarrow> rat \<Rightarrow> rat \<Rightarrow> string \<Rightarrow> string
     \<Rightarrow> string option \<Rightarrow> store \<Rightarrow> int \<times> store" where
  "insert_transaction db_now senderId recipientId paymentMethodId amount fromCurrency toCurrency
     rate' fee' status' routeType notes' s =
     (let row = \<lparr>tx_id = transactions_id_seq s, sender_id = senderId,
                  recipient_id = recipientId, payment_method_id = paymentMethodId,
                  amount_sent = amount, currency_sent = fromCurrency, amount_received = None,
                  currency_received = toCurrency, exchange_rate = Some rate',
                  tx_fee = Some fee', xrpl_tx_hash = None, status = status',
                  tx_route_type = Some routeType, created_at = db_now, completed_at = None,
                  tx_notes = notes'\<rparr>
      in (tx_id row,
          s\<lparr>transactions := transactions s @ [row],
            transactions_id_seq := transactions_id_seq s + 1\<rparr>))"

text \<open>
  The handler, for the authenticated user \<open>userId\<close>. It returns the response, the store,
  the rate service and, when it has started one, the background call. \<open>db_now\<close> is the
  database clock at the insert, \<open>t_resp\<close> the clock when the response is built.
  The rate, the fee and the amount received of the new row are kept as exact values: the
  properties of the store proved below do not depend on how they are rounded.
\<close>

definition create_transaction ::
  "exchange_service \<Rightarrow> (string \<Rightarrow> string \<Rightarrow> upstream_reply) \<Rightarrow> int \<times> int \<times> int \<Rightarrow> int \<Rightarrow> int \<Rightarrow>
     store \<Rightarrow> int \<Rightarrow> create_body \<Rightarrow>
     (http_error + create_response) \<times> store \<times> exchange_service \<times> background_call option" where
  "create_transaction svc axios_get ts db_now t_resp s userId body =
     (if falsy_int (req_recipientId body) \<or> falsy_int (req_paymentMethodId body)
         \<or> falsy_num (req_amount body) \<or> falsy_str (req_fromCurrency body)
         \<or> falsy_str (req_toCurrency body) \<or> falsy_str (req_routeType body)
      then (Inl MissingFields, s, svc, None)
      else
        let recipientId = the (req_recipientId body);
            paymentMethodId = the (req_paymentMethodId body);
            amount = the (req_amount body);
            fromCurrency = the (req_fromCurrency body);
            toCurrency = the (req_toCurrency body);
            routeType = the (req_routeType body)
        in
        if amount < 10 \<or> amount > 10000 then (Inl AmountOutOfRange, s, svc, None)
        else if filter (\<lambda>r. rcp_id r = recipientId \<and> rcp_user_id r = userId) (recipients s) = []
        then (Inl RecipientNotFound, s, svc, None)
        else if filter (\<lambda>p. pm_id p = paymentMethodId \<and> pm_user_id p = userId)
                  (payment_methods s) = []
        then (Inl PaymentMethodNotFound, s, svc, None)
        else
          let (rateData, svc') = getRate svc axios_get ts fromCurrency toCurrency;
              rate' = rate rateData * (997 / 1000);
              fee' = amount * (1 / 100);
              received = (amount - fee') * rate';
              (i, s') = insert_transaction db_now userId recipientId paymentMethodId amount
                          fromCurrency toCurrency rate' fee' ''processing'' routeType
                          (if falsy_str (req_notes body) then None else req_notes body) s
          in (Inr \<lparr>transactionId = i, resp_status = ''processing'',
                    message = ''Transaction initiated successfully'',
                    estimatedCompletion = t_resp + 10 * 60 * 1000\<rparr>,
              s', svc',
              Some \<lparr>bg_transactionId = i, bg_senderId = userId, bg_recipientId = recipientId,
                     bg_paymentMethodId = paymentMethodId, bg_amount = amount,
                     bg_fromCurrency = fromCurrency, bg_toCurrency = toCurrency,
                     bg_exchangeRate = rate', bg_amountReceived = received\<rparr>))"

section \<open>Cancelling a transaction (POST /:id/cancel)\<close>

record cancel_response =
  cancel_message :: string
  cancel_transactionId :: int

definition InvalidStateTransition :: "string \<Rightarrow> http_error" where
  "InvalidStateTransition current =
     HttpError 400 (''Cannot cancel transaction with status: '' @ current)"

definition cancel :: "store \<Rightarrow> int \<Rightarrow> int \<Rightarrow> (http_error + cancel_response) \<times> store" where
  "cancel s userId i =
     (case find (\<lambda>r. tx_id r = i \<and> sender_id r = userId) (transactions s) of
        None \<Rightarrow> (Inl (HttpError 404 ''Transaction not found''), s)
      | Some transaction \<Rightarrow>
          if status transaction \<noteq> ''pending''
          then (Inl (InvalidStateTransition (status transaction)), s)
          else (Inr \<lparr>cancel_message = ''Transaction cancelled successfully'',
                     cancel_transactionId = i\<rparr>,
                update_transactions i
                  (\<lambda>r. r\<lparr>status := ''failed'', tx_notes := Some ''Cancelled by user''\<rparr>) s))"

section \<open>Histories of the store\<close>

text \<open>
  The stores the routes can produce from a database whose \<open>transactions\<close> table is empty,
  as \<open>init.sql\<close> creates it: recipients and payment methods are added by the user routes,
  and the transactions table is written by the create handler, by the background pipeline
  and by the cancel handler only.
\<close>

inductive reachable :: "store \<Rightarrow> bool" where
  initial: "transactions s = [] \<Longrightarrow> reachable s"
| add_recipient: "reachable s \<Longrightarrow> reachable (s\<lparr>recipients := recipients s @ [r]\<rparr>)"
| add_payment_method:
    "reachable s \<Longrightarrow> reachable (s\<lparr>payment_methods := payment_methods s @ [p]\<rparr>)"
| created:
    "reachable s \<Longrightarrow>
     create_transaction svc axios_get ts db_now t_resp s userId body = (resp, s', svc', bg) \<Longrightarrow>
     reachable s'"
| processed:
    "reachable s \<Longrightarrow>
     reachable (processTransaction ad now s i senderId recipientId paymentMethodId
                  amount fromCurrency toCurrency rate' received)"
| cancelled: "reachable s \<Longrightarrow> cancel s userId i = (resp, s') \<Longrightarrow> reachable s'"

section \<open>Example data\<close>

text \<open>
  A database with one recipient and one payment method, both of user 1, and no
  transaction; and a complete request of user 1 for an amount.
\<close>

definition example_store :: store where
  "example_store =
     \<lparr>recipients = [\<lparr>rcp_id = 1, rcp_user_id = 1, payout_type = ''bank'',
                      bank_name = Some ''BBVA''\<rparr>],
      payment_methods = [\<lparr>pm_id = 1, pm_user_id = 1\<rparr>],
      transactions = [], transactions_id_seq = 1\<rparr>"

definition example_request :: "rat \<Rightarrow> create_body" where
  "example_request a =
     \<lparr>req_recipientId = Some 1, req_paymentMethodId = Some 1, req_amount = Some a,
      req_fromCurrency = Some ''USD'', req_toCurrency = Some ''MXN'',
      req_routeType = Some ''xrpl_direct'', req_notes = None\<rparr>"

section \<open>Properties of the numbers\<close>

lemma bitlen_powi_bounds:
  assumes "0 < p"
  shows "2 powi (bitlen p - 1) \<le> (of_int p :: rat)" and "(of_int p :: rat) < 2 powi bitlen p"
proof -
  from assms have b: "1 \<le> bitlen p"
    using bitlen_eq_zero_iff [of p] bitlen_nonneg [of p] by linarith
  from bitlen_bounds [OF assms] have "2 ^ nat (bitlen p - 1) \<le> p" and "p < 2 ^ nat (bitlen p)"
    by simp_all
  then have "(of_int (2 ^ nat (bitlen p - 1)) :: rat) \<le> of_int p"
    and "(of_int p :: rat) < of_int (2 ^ nat (bitlen p))"
    by (simp_all only: of_int_le_iff of_int_less_iff)
  with b show "2 powi (bitlen p - 1) \<le> (of_int p :: rat)"
    and "(of_int p :: rat) < 2 powi bitlen p"
    by (simp_all add: power_int_nonneg_exp)
qed

lemma floor_bitlen_bounds:
  assumes "1 \<le> (y :: rat)"
  shows "2 powi (bitlen \<lfloor>y\<rfloor> - 1) \<le> y" and "y < 2 powi bitlen \<lfloor>y\<rfloor>"
    and "1 \<le> bitlen \<lfloor>y\<rfloor>"
proof -
  from assms have n: "0 < \<lfloor>y\<rfloor>"
    by simp
  note b = bitlen_powi_bounds [OF n]
  have "(of_int \<lfloor>y\<rfloor> :: rat) \<le> y"
    by simp
  with b(1) show "2 powi (bitlen \<lfloor>y\<rfloor> - 1) \<le> y"
    by linarith
  from n show "1 \<le> bitlen \<lfloor>y\<rfloor>"
    using bitlen_eq_zero_iff [of "\<lfloor>y\<rfloor>"] bitlen_nonneg [of "\<lfloor>y\<rfloor>"] by linarith
  then have "(2 :: rat) powi bitlen \<lfloor>y\<rfloor> = of_int (2 ^ nat (bitlen \<lfloor>y\<rfloor>))"
    by (simp add: power_int_nonneg_exp)
  moreover have "\<lfloor>y\<rfloor> + 1 \<le> 2 ^ nat (bitlen \<lfloor>y\<rfloor>)"
    using bitlen_bounds [OF n] by simp
  then have "(of_int (\<lfloor>y\<rfloor> + 1) :: rat) \<le> of_int (2 ^ nat (bitlen \<lfloor>y\<rfloor>))"
    by (simp only: of_int_le_iff)
  moreover have "y < of_int (\<lfloor>y\<rfloor> + 1)"
    by simp linarith
  ultimately show "y < 2 powi bitlen \<lfloor>y\<rfloor>"
    by linarith
qed

lemma ilog2_bounds:
  assumes "0 < x"
  shows "2 powi ilog2 x \<le> x" and "x < 2 powi (ilog2 x + 1)"
proof -
  have "2 powi ilog2 x \<le> x \<and> x < 2 powi (ilog2 x + 1)"
  proof (cases "1 \<le> x")
    case True
    from floor_bitlen_bounds(1,2) [OF True] True show ?thesis
      by (simp add: ilog2_def)
  next
    case False
    with assms have y: "1 \<le> 1 / x"
      by simp
    define j where "j = bitlen \<lfloor>1 / x\<rfloor> - 1"
    note b = floor_bitlen_bounds [OF y]
    from b(3) have j: "0 \<le> j"
      by (simp add: j_def)
    define P where "P = (2 :: rat) powi j"
    have P: "0 < P"
      by (simp add: P_def zero_less_power_int)
    have inv: "(2 :: rat) powi (- j) = 1 / P"
      unfolding P_def by (rule power_int_minus_divide)
    have "(2 :: rat) powi (- j - 1) = 2 powi (- j) / 2 powi 1"
      by (rule power_int_diff) simp
    then have inv2: "(2 :: rat) powi (- j - 1) = 1 / (2 * P)"
      by (simp add: inv)
    have "(2 :: rat) powi (- j - 1 + 1) = 2 powi (- j)"
      by simp
    have "(2 :: rat) powi (j + 1) = 2 powi j * 2 powi 1"
      by (rule power_int_add) simp
    then have next_power: "(2 :: rat) powi (j + 1) = 2 * P"
      by (simp add: P_def)
    from b(1) have "P \<le> 1 / x"
      by (simp add: P_def j_def)
    with assms P have up: "x \<le> 2 powi (- j)"
      unfolding inv by (simp add: field_simps)
    from b(2) have "1 / x < 2 powi (j + 1)"
      by (simp add: j_def)
    then have "1 / x < 2 * P"
      unfolding next_power .
    with assms P have low: "2 powi (- j - 1) < x"
      unfolding inv2 by (simp add: field_simps)
    have "(2 :: rat) ^ nat j = P"
      using j by (simp add: P_def power_int_nonneg_exp)
    then have eq: "x * 2 ^ nat j = 1 \<longleftrightarrow> x = 2 powi (- j)"
      unfolding inv using P by (simp add: field_simps)
    have def: "ilog2 x = (if x * 2 ^ nat j = 1 then - j else - j - 1)"
      using False by (simp add: ilog2_def Let_def j_def)
    show ?thesis
    proof (cases "x = 2 powi (- j)")
      case True
      have k: "ilog2 x = - j"
        unfolding def using True eq by simp
      have "(2 :: rat) powi (- j) < 2 powi (- j + 1)"
        by (intro power_int_strict_increasing) simp_all
      then show ?thesis
        unfolding k using True by simp
    next
      case neq: False
      have k: "ilog2 x = - j - 1"
        unfolding def using neq eq by simp
      have "- j - 1 + 1 = - j"
        by simp
      moreover from up neq have "x < 2 powi (- j)"
        by simp
      ultimately show ?thesis
        unfolding k using low by (simp add: less_imp_le)
    qed
  qed
  then show "2 powi ilog2 x \<le> x" and "x < 2 powi (ilog2 x + 1)"
    by simp_all
qed


lemma ilog2_unique:
  assumes "2 powi k \<le> x" and "x < 2 powi (k + 1)"
  shows "ilog2 x = k"
proof -
  have "(0 :: rat) < 2 powi k"
    by (simp add: zero_less_power_int)
  with assms have pos: "0 < x"
    by linarith
  note b = ilog2_bounds [OF pos]
  from b(1) assms(2) have "(2 :: rat) powi ilog2 x < 2 powi (k + 1)"
    by linarith
  then have "ilog2 x < k + 1"
    by (metis linorder_not_less power_int_increasing one_le_numeral)
  moreover from assms(1) b(2) have "(2 :: rat) powi k < 2 powi (ilog2 x + 1)"
    by linarith
  then have "k < ilog2 x + 1"
    by (metis linorder_not_less power_int_increasing one_le_numeral)
  ultimately show ?thesis by linarith
qed

lemma ilog2_mono:
  assumes "0 < x" and "x \<le> y"
  shows "ilog2 x \<le> ilog2 y"
proof -
  from assms have "0 < y" by linarith
  from ilog2_bounds(1) [OF assms(1)] assms(2) ilog2_bounds(2) [OF \<open>0 < y\<close>]
  have "(2 :: rat) powi ilog2 x < 2 powi (ilog2 y + 1)"
    by linarith
  then have "ilog2 x < ilog2 y + 1"
    by (metis linorder_not_less power_int_increasing one_le_numeral)
  then show ?thesis by linarith
qed

lemma round_even_bounds: "\<lfloor>y\<rfloor> \<le> round_even y" "round_even y \<le> \<lfloor>y\<rfloor> + 1"
  by (simp_all add: round_even_def Let_def)

lemma round_even_of_int [simp]: "round_even (of_int k) = k"
  by (simp add: round_even_def)

lemma round_even_mono:
  assumes "x \<le> y"
  shows "round_even x \<le> round_even y"
proof (cases "\<lfloor>x\<rfloor> = \<lfloor>y\<rfloor>")
  case True
  with assms show ?thesis
    by (auto simp: round_even_def Let_def)
next
  case False
  with assms have "\<lfloor>x\<rfloor> + 1 \<le> \<lfloor>y\<rfloor>"
    using floor_mono [of x y] by linarith
  with round_even_bounds(2) [of x] round_even_bounds(1) [of y] show ?thesis
    by linarith
qed

lemma round_even_le: "y \<le> of_int n \<Longrightarrow> round_even y \<le> n"
  using round_even_mono [of y "of_int n"] by simp

lemma round_even_ge: "of_int n \<le> y \<Longrightarrow> n \<le> round_even y"
  using round_even_mono [of "of_int n" y] by simp

lemma round_even_error: "\<bar>of_int (round_even y) - y\<bar> \<le> 1 / 2"
proof -
  have "of_int \<lfloor>y\<rfloor> \<le> y" and "y < of_int \<lfloor>y\<rfloor> + 1"
    by linarith+
  then show ?thesis
    by (auto simp: round_even_def Let_def abs_le_iff)
qed

lemma two_powi_pos [simp]: "(0 :: rat) < 2 powi k"
  by (simp add: zero_less_power_int)

lemma two_powi_of_int: "0 \<le> k \<Longrightarrow> (2 :: rat) powi k = of_int (2 ^ nat k)"
  by (simp add: power_int_nonneg_exp)

lemma two_powi_le: "j \<le> k \<Longrightarrow> (2 :: rat) powi j \<le> 2 powi k"
  by (simp add: power_int_increasing)

lemma two_powi_less: "j < k \<Longrightarrow> (2 :: rat) powi j < 2 powi k"
  by (simp add: power_int_strict_increasing)

lemma two_powi_split: "(2 :: rat) powi (j + k) = 2 powi j * 2 powi k"
  by (simp add: power_int_add)

lemma two_powi_diff: "(2 :: rat) powi (j - k) = 2 powi j / 2 powi k"
  by (simp add: power_int_diff)

lemma two_powi_shift: "0 \<le> k \<Longrightarrow> (2 :: rat) ^ nat k * 2 powi e = 2 powi (k + e)"
  by (simp add: two_powi_split power_int_nonneg_exp)

lemma round_magnitude_nonneg: "0 < x \<Longrightarrow> 0 \<le> round_magnitude x"
proof -
  assume "0 < x"
  then have "(of_int 0 :: rat) \<le> x / 2 powi ulp_exponent x"
    by simp
  then have "0 \<le> round_even (x / 2 powi ulp_exponent x)"
    by (rule round_even_ge)
  then show ?thesis
    by (simp add: round_magnitude_def)
qed

lemma round_magnitude_lower:
  assumes "0 < x" and "emin \<le> ilog2 x"
  shows "2 powi ilog2 x \<le> round_magnitude x"
proof -
  let ?e = "ulp_exponent x"
  from assms(2) have e: "?e \<le> ilog2 x"
    by (simp add: ulp_exponent_def)
  have "(of_int (2 ^ nat (ilog2 x - ?e)) :: rat) = 2 powi (ilog2 x - ?e)"
    using e by (simp add: two_powi_of_int)
  also have "\<dots> = 2 powi ilog2 x / 2 powi ?e"
    by (rule two_powi_diff)
  also have "\<dots> \<le> x / 2 powi ?e"
    using ilog2_bounds(1) [OF assms(1)] by (simp add: divide_right_mono)
  finally have "2 ^ nat (ilog2 x - ?e) \<le> round_even (x / 2 powi ?e)"
    by (rule round_even_ge)
  then have "(of_int (2 ^ nat (ilog2 x - ?e)) :: rat) \<le> of_int (round_even (x / 2 powi ?e))"
    by (simp only: of_int_le_iff)
  then have "(of_int (2 ^ nat (ilog2 x - ?e)) :: rat) * 2 powi ?e \<le> round_magnitude x"
    unfolding round_magnitude_def by (intro mult_right_mono) simp_all
  moreover have "(of_int (2 ^ nat (ilog2 x - ?e)) :: rat) * 2 powi ?e = 2 powi ilog2 x"
    using e two_powi_shift [of "ilog2 x - ?e" ?e] by simp
  ultimately show ?thesis by simp
qed

lemma round_magnitude_upper:
  assumes "0 < x"
  shows "round_magnitude x \<le> 2 powi (ilog2 x + 1)"
proof (cases "ulp_exponent x \<le> ilog2 x + 1")
  case True
  let ?e = "ulp_exponent x"
  have "x / 2 powi ?e \<le> 2 powi (ilog2 x + 1) / 2 powi ?e"
    using ilog2_bounds(2) [OF assms] by (simp add: divide_right_mono less_imp_le)
  also have "\<dots> = 2 powi (ilog2 x + 1 - ?e)"
    by (rule two_powi_diff [symmetric])
  also have "\<dots> = of_int (2 ^ nat (ilog2 x + 1 - ?e))"
    using True by (simp add: two_powi_of_int)
  finally have "round_even (x / 2 powi ?e) \<le> 2 ^ nat (ilog2 x + 1 - ?e)"
    by (rule round_even_le)
  then have "(of_int (round_even (x / 2 powi ?e)) :: rat) \<le> of_int (2 ^ nat (ilog2 x + 1 - ?e))"
    by (simp only: of_int_le_iff)
  then have "round_magnitude x \<le> (of_int (2 ^ nat (ilog2 x + 1 - ?e)) :: rat) * 2 powi ?e"
    unfolding round_magnitude_def by (intro mult_right_mono) simp_all
  moreover have "(of_int (2 ^ nat (ilog2 x + 1 - ?e)) :: rat) * 2 powi ?e = 2 powi (ilog2 x + 1)"
    using True two_powi_shift [of "ilog2 x + 1 - ?e" ?e] by simp
  ultimately show ?thesis by simp
next
  case False
  let ?e = "ulp_exponent x"
  from False have "ilog2 x + 1 - ?e \<le> - 1"
    by simp
  have "x / 2 powi ?e < 2 powi (ilog2 x + 1) / 2 powi ?e"
    using ilog2_bounds(2) [OF assms] by (simp add: divide_strict_right_mono)
  also have "\<dots> = 2 powi (ilog2 x + 1 - ?e)"
    by (rule two_powi_diff [symmetric])
  also have "\<dots> \<le> 2 powi (- 1)"
    using \<open>ilog2 x + 1 - ?e \<le> - 1\<close> by (rule two_powi_le)
  finally have "x / 2 powi ?e < 1 / 2"
    by simp
  moreover define q where "q = x / 2 powi ?e"
  ultimately have small: "q < 1 / 2"
    by simp
  have nonneg: "0 \<le> q"
    unfolding q_def using assms by simp
  from small nonneg have "\<lfloor>q\<rfloor> = 0"
    by (intro floor_unique) linarith+
  with small have "round_even q = 0"
    by (simp add: round_even_def Let_def)
  then show ?thesis
    unfolding round_magnitude_def q_def [symmetric] by simp
qed

lemma ulp_exponent_mono: "0 < x \<Longrightarrow> x \<le> y \<Longrightarrow> ulp_exponent x \<le> ulp_exponent y"
  using ilog2_mono [of x y] by (simp add: ulp_exponent_def)

lemma round_magnitude_mono:
  assumes "0 < x" and "x \<le> y"
  shows "round_magnitude x \<le> round_magnitude y"
proof (cases "ulp_exponent x = ulp_exponent y")
  case True
  have "x / 2 powi ulp_exponent y \<le> y / 2 powi ulp_exponent y"
    using assms(2) by (simp add: divide_right_mono)
  then have "round_even (x / 2 powi ulp_exponent y) \<le> round_even (y / 2 powi ulp_exponent y)"
    by (rule round_even_mono)
  then have "(of_int (round_even (x / 2 powi ulp_exponent y)) :: rat)
      \<le> of_int (round_even (y / 2 powi ulp_exponent y))"
    by (simp only: of_int_le_iff)
  then show ?thesis
    unfolding round_magnitude_def True by (intro mult_right_mono) simp_all
next
  case False
  from assms have y: "0 < y" by linarith
  from False ulp_exponent_mono [OF assms] have less: "ulp_exponent x < ulp_exponent y"
    by linarith
  then have normal: "emin \<le> ilog2 y" and "ilog2 x < ilog2 y"
    by (auto simp: ulp_exponent_def max_def split: if_splits)
  have "round_magnitude x \<le> 2 powi (ilog2 x + 1)"
    by (rule round_magnitude_upper [OF assms(1)])
  also have "\<dots> \<le> 2 powi ilog2 y"
    using \<open>ilog2 x < ilog2 y\<close> by (intro two_powi_le) simp
  also have "\<dots> \<le> round_magnitude y"
    by (rule round_magnitude_lower [OF y normal])
  finally show ?thesis .
qed

lemma ilog2_two_powi [simp]: "ilog2 (2 powi k) = k"
  by (rule ilog2_unique) (simp_all add: two_powi_less)

lemma ilog2_one [simp]: "ilog2 1 = 0"
  using ilog2_two_powi [of 0] by simp

lemma round_magnitude_exact:
  assumes m: "1 \<le> m" "m < 2 ^ 53" and e: "emin \<le> e"
  shows "round_magnitude (of_int m * 2 powi e) = of_int m * 2 powi e"
proof -
  let ?z = "of_int m * (2 :: rat) powi e"
  have mpos: "(0 :: rat) < of_int m"
    using m by simp
  then have z: "0 < ?z"
    by simp
  have "(2 :: rat) powi 0 \<le> of_int m"
    using m by simp
  with mpos have j0: "0 \<le> ilog2 (of_int m)"
    using ilog2_mono [of "2 powi 0" "of_int m"] by simp
  have "(of_int m :: rat) < of_int (2 ^ 53)"
    using m(2) by (simp only: of_int_less_iff)
  then have "(of_int m :: rat) < 2 powi 53"
    by simp
  with ilog2_bounds(1) [OF mpos] have "(2 :: rat) powi ilog2 (of_int m) < 2 powi 53"
    by linarith
  then have j52: "ilog2 (of_int m :: rat) \<le> 52"
    by (metis linorder_not_less power_int_increasing one_le_numeral zle_add1_eq_le
        numeral_plus_one semiring_norm(5) semiring_norm(8) add.commute)
  let ?j = "ilog2 (of_int m :: rat)"
  have L: "ilog2 ?z = ?j + e"
  proof (rule ilog2_unique)
    show "2 powi (?j + e) \<le> ?z"
      using ilog2_bounds(1) [OF mpos] by (simp add: two_powi_split mult_right_mono)
    have "?z < 2 powi (?j + 1) * 2 powi e"
      using ilog2_bounds(2) [OF mpos] by (intro mult_strict_right_mono) simp_all
    also have "\<dots> = 2 powi (?j + e + 1)"
      by (subst two_powi_split [symmetric]) (simp add: algebra_simps)
    finally show "?z < 2 powi (?j + e + 1)" .
  qed
  let ?u = "ulp_exponent ?z"
  from L j52 e have u: "?u \<le> e"
    by (simp add: ulp_exponent_def)
  have "?z / 2 powi ?u = of_int m * 2 powi (e - ?u)"
    by (simp add: two_powi_diff)
  also have "\<dots> = of_int (m * 2 ^ nat (e - ?u))"
    using u by (simp add: power_int_nonneg_exp)
  finally have "round_even (?z / 2 powi ?u) = m * 2 ^ nat (e - ?u)"
    by (simp only: round_even_of_int)
  then have "round_magnitude ?z = of_int (m * 2 ^ nat (e - ?u)) * 2 powi ?u"
    by (simp only: round_magnitude_def)
  also have "\<dots> = of_int m * (2 ^ nat (e - ?u) * 2 powi ?u)"
    by simp
  also have "2 ^ nat (e - ?u) * (2 :: rat) powi ?u = 2 powi e"
    using u two_powi_shift [of "e - ?u" ?u] by simp
  finally show ?thesis .
qed

lemma ulp_exponent_ge [simp]: "emin \<le> ulp_exponent x"
  by (simp add: ulp_exponent_def)

lemma round_magnitude_representable:
  assumes "0 < x" and "round_magnitude x \<noteq> 0"
  shows "\<exists>m e. round_magnitude x = of_int m * 2 powi e \<and> 1 \<le> m \<and> m < 2 ^ 53 \<and> emin \<le> e"
proof -
  let ?e = "ulp_exponent x"
  let ?m = "round_even (x / 2 powi ?e)"
  have "ilog2 x + 1 - ?e \<le> 53"
    by (simp add: ulp_exponent_def)
  have "x / 2 powi ?e \<le> 2 powi (ilog2 x + 1) / 2 powi ?e"
    using ilog2_bounds(2) [OF assms(1)] by (simp add: divide_right_mono less_imp_le)
  also have "\<dots> = 2 powi (ilog2 x + 1 - ?e)"
    by (rule two_powi_diff [symmetric])
  also have "\<dots> \<le> 2 powi 53"
    using \<open>ilog2 x + 1 - ?e \<le> 53\<close> by (rule two_powi_le)
  also have "\<dots> = of_int (2 ^ 53)"
    by simp
  finally have upper: "?m \<le> 2 ^ 53"
    by (rule round_even_le)
  have "(of_int 0 :: rat) \<le> x / 2 powi ?e"
    using assms(1) by simp
  then have "0 \<le> ?m"
    by (rule round_even_ge)
  moreover from assms(2) have "?m \<noteq> 0"
    by (auto simp: round_magnitude_def)
  ultimately have lower: "1 \<le> ?m"
    by linarith
  show ?thesis
  proof (cases "?m = 2 ^ 53")
    case True
    have "round_magnitude x = of_int (2 ^ 53) * 2 powi ?e"
      unfolding round_magnitude_def True ..
    also have "\<dots> = of_int (2 ^ 52) * (2 powi 1 * 2 powi ?e)"
      by simp
    also have "\<dots> = of_int (2 ^ 52) * 2 powi (?e + 1)"
      by (subst two_powi_split [symmetric]) (simp add: algebra_simps)
    finally have "round_magnitude x = of_int (2 ^ 52) * 2 powi (?e + 1)" .
    moreover have "emin \<le> ?e + 1"
      using ulp_exponent_ge [of x] by linarith
    moreover have "(1 :: int) \<le> 2 ^ 52" and "(2 :: int) ^ 52 < 2 ^ 53"
      by simp_all
    ultimately show ?thesis
      by blast
  next
    case False
    with upper have "?m < 2 ^ 53"
      by linarith
    with lower show ?thesis
      by (intro exI [of _ ?m] exI [of _ ?e]) (simp add: round_magnitude_def)
  qed
qed

lemma round_magnitude_idem:
  assumes "0 < x" and "round_magnitude x \<noteq> 0"
  shows "round_magnitude (round_magnitude x) = round_magnitude x"
proof -
  from round_magnitude_representable [OF assms] obtain m e where
    "round_magnitude x = of_int m * 2 powi e" "1 \<le> m" "m < 2 ^ 53" "emin \<le> e"
    by blast
  then show ?thesis
    by (simp only: round_magnitude_exact)
qed

lemma round_magnitude_grid:
  assumes "0 < x"
  shows "\<exists>k. round_magnitude x = of_int k * 2 powi emin"
proof -
  let ?e = "ulp_exponent x"
  have "(2 :: rat) powi ?e = 2 ^ nat (?e - emin) * 2 powi emin"
    using two_powi_shift [of "?e - emin" "emin"] by simp
  then have "round_magnitude x =
      of_int (round_even (x / 2 powi ?e) * 2 ^ nat (?e - emin)) * 2 powi emin"
    by (simp add: round_magnitude_def)
  then show ?thesis ..
qed

lemma round_magnitude_pos:
  assumes "2 powi emin \<le> x"
  shows "2 powi emin \<le> round_magnitude x"
proof -
  have pos: "0 < x"
    using assms two_powi_pos [of "emin"] by linarith
  from ilog2_mono [of "2 powi emin" x] assms have normal: "emin \<le> ilog2 x"
    by simp
  then have "(2 :: rat) powi emin \<le> 2 powi ilog2 x"
    by (rule two_powi_le)
  also have "\<dots> \<le> round_magnitude x"
    by (rule round_magnitude_lower [OF pos normal])
  finally show ?thesis .
qed

lemma double_not_NaN [simp]: "double x \<noteq> NaN"
  by (simp add: double_def Let_def)

lemma double_0 [simp]: "double 0 = Num 0"
  by (simp add: double_def)

lemma double_pos_cases:
  assumes "0 < x"
  obtains (inf) "overflow_threshold \<le> round_magnitude x" "double x = PosInfinity"
  | (zero) "round_magnitude x = 0" "double x = Num 0"
  | (num) "0 < round_magnitude x" "round_magnitude x < overflow_threshold"
      "double x = Num (round_magnitude x)"
proof -
  from assms have "0 \<le> round_magnitude x"
    by (rule round_magnitude_nonneg)
  with assms that show ?thesis
    by (cases "overflow_threshold \<le> round_magnitude x"; cases "round_magnitude x = 0")
      (auto simp: double_def Let_def)
qed

lemma double_neg_cases:
  assumes "x < 0"
  obtains (inf) "overflow_threshold \<le> round_magnitude (- x)" "double x = NegInfinity"
  | (zero) "round_magnitude (- x) = 0" "double x = NegZero"
  | (num) "0 < round_magnitude (- x)" "round_magnitude (- x) < overflow_threshold"
      "double x = Num (- round_magnitude (- x))"
proof -
  from assms have "0 \<le> round_magnitude (- x)"
    by (intro round_magnitude_nonneg) simp
  with assms that show ?thesis
    by (cases "overflow_threshold \<le> round_magnitude (- x)"; cases "round_magnitude (- x) = 0")
      (auto simp: double_def Let_def abs_if)
qed

lemma overflow_threshold_pos [simp]: "0 < overflow_threshold"
  by (simp add: overflow_threshold_def)

lemma double_idem:
  assumes "double x = Num z"
  shows "double z = Num z"
proof -
  consider "x = 0" | "0 < x" | "x < 0"
    by linarith
  then show ?thesis
  proof cases
    case 1
    with assms show ?thesis by simp
  next
    case 2
    then show ?thesis
    proof (cases rule: double_pos_cases)
      case inf
      with assms show ?thesis by simp
    next
      case zero
      with assms show ?thesis by simp
    next
      case num
      with assms have z: "z = round_magnitude x" by simp
      from num(1) have "round_magnitude x \<noteq> 0" by simp
      from round_magnitude_idem [OF 2 this] num show ?thesis
        unfolding z by (simp add: double_def Let_def)
    qed
  next
    case 3
    then show ?thesis
    proof (cases rule: double_neg_cases)
      case inf
      with assms show ?thesis by simp
    next
      case zero
      with assms show ?thesis by simp
    next
      case num
      with assms have z: "z = - round_magnitude (- x)" by simp
      from 3 have pos: "0 < - x" by simp
      from num(1) have "round_magnitude (- x) \<noteq> 0" by simp
      from round_magnitude_idem [OF pos this] num show ?thesis
        unfolding z by (simp add: double_def Let_def)
    qed
  qed
qed

lemma number_le_simps [simp]:
  "number_le (Num x) (Num y) \<longleftrightarrow> x \<le> y"
  "number_le (Num x) NegZero \<longleftrightarrow> x \<le> 0"
  "number_le NegZero (Num y) \<longleftrightarrow> 0 \<le> y"
  "number_le NegZero NegZero"
  "number_le (Num x) PosInfinity"
  "number_le NegZero PosInfinity"
  "number_le NegInfinity (Num y)"
  "number_le NegInfinity NegZero"
  "number_le NegInfinity NegInfinity"
  "number_le PosInfinity PosInfinity"
  "number_le NegInfinity PosInfinity"
  "\<not> number_le PosInfinity (Num y)"
  "\<not> number_le PosInfinity NegZero"
  "\<not> number_le PosInfinity NegInfinity"
  "\<not> number_le (Num x) NegInfinity"
  "\<not> number_le NegZero NegInfinity"
  "\<not> number_le NaN a"
  "\<not> number_le a NaN"
  by (simp_all add: number_le_def finite_value_def)

lemma double_pos_value:
  "0 < x \<Longrightarrow>
   double x = (if overflow_threshold \<le> round_magnitude x then PosInfinity
               else Num (round_magnitude x))"
  by (simp add: double_def Let_def)

lemma double_neg_value:
  "x < 0 \<Longrightarrow>
   double x = (if overflow_threshold \<le> round_magnitude (- x) then NegInfinity
               else if round_magnitude (- x) = 0 then NegZero
               else Num (- round_magnitude (- x)))"
  by (simp add: double_def Let_def abs_if)

lemma double_mono:
  assumes "x \<le> y"
  shows "number_le (double x) (double y)"
proof -
  consider (zz) "x = 0" "y = 0" | (zp) "x = 0" "0 < y" | (pp) "0 < x" "0 < y"
    | (nz) "x < 0" "y = 0" | (np) "x < 0" "0 < y" | (nn) "x < 0" "y < 0"
    using assms by linarith
  then show ?thesis
  proof cases
    case zz
    then show ?thesis by simp
  next
    case zp
    with round_magnitude_nonneg [of y] show ?thesis
      by (simp add: double_pos_value)
  next
    case pp
    with round_magnitude_mono [OF pp(1) assms] show ?thesis
      by (simp add: double_pos_value)
  next
    case nz
    with round_magnitude_nonneg [of "- x"] show ?thesis
      by (simp add: double_neg_value)
  next
    case np
    with round_magnitude_nonneg [of "- x"] round_magnitude_nonneg [of y] show ?thesis
      by (simp add: double_neg_value double_pos_value)
  next
    case nn
    then have "0 < - y" and "- y \<le> - x"
      using assms by simp_all
    from round_magnitude_mono [OF this] round_magnitude_nonneg [OF \<open>0 < - y\<close>] nn show ?thesis
      by (auto simp: double_neg_value)
  qed
qed

lemma double_positive:
  assumes "2 powi emin \<le> x"
  shows "double x = PosInfinity \<or> (\<exists>y. double x = Num y \<and> 0 < y)"
proof -
  have pos: "0 < x"
    using assms two_powi_pos [of emin] by linarith
  from round_magnitude_pos [OF assms] two_powi_pos [of emin] have "0 < round_magnitude x"
    by linarith
  with pos show ?thesis
    by (simp add: double_pos_value)
qed

lemma double_negative:
  assumes "x \<le> - (2 powi emin)"
  shows "double x = NegInfinity \<or> (\<exists>y. double x = Num y \<and> y < 0)"
proof -
  have neg: "x < 0"
    using assms two_powi_pos [of emin] by linarith
  from assms have "2 powi emin \<le> - x"
    by simp
  from round_magnitude_pos [OF this] two_powi_pos [of emin] have "0 < round_magnitude (- x)"
    by linarith
  with neg show ?thesis
    by (simp add: double_neg_value)
qed

lemma on_grid_double [simp]: "on_grid (double x)"
proof -
  consider "x = 0" | "0 < x" | "x < 0"
    by linarith
  then show ?thesis
  proof cases
    case 1
    then show ?thesis
      by (auto simp: on_grid_def finite_value_def intro: exI [of _ 0])
  next
    case 2
    from round_magnitude_grid [OF 2] 2 show ?thesis
      by (auto simp: on_grid_def finite_value_def double_pos_value)
  next
    case 3
    then have "0 < - x" by simp
    from round_magnitude_grid [OF this] obtain k where
      "round_magnitude (- x) = of_int k * 2 powi emin" ..
    then have "- round_magnitude (- x) = of_int (- k) * 2 powi emin"
      by simp
    then have "\<exists>j. - round_magnitude (- x) = of_int j * 2 powi emin" ..
    moreover have "\<exists>j. (0 :: rat) = of_int j * 2 powi emin"
      by (intro exI [of _ 0]) simp
    ultimately show ?thesis
      using 3 by (simp add: on_grid_def finite_value_def double_neg_value)
  qed
qed

text \<open>Rules that let the simplifier compute a number.\<close>

lemma bitlen_numeral_simps [simp]:
  "bitlen 1 = 1"
  "bitlen (numeral Num.One) = 1"
  "bitlen (numeral (Num.Bit0 n)) = bitlen (numeral n) + 1"
  "bitlen (numeral (Num.Bit1 n)) = bitlen (numeral n) + 1"
proof -
  show "bitlen 1 = 1" "bitlen (numeral Num.One) = 1"
    by (simp_all add: compute_bitlen [of 1])
  have "numeral (Num.Bit0 n) div (2 :: int) = numeral n"
    by simp
  then show "bitlen (numeral (Num.Bit0 n)) = bitlen (numeral n) + 1"
    by (subst compute_bitlen) simp
  have "numeral (Num.Bit1 n) div (2 :: int) = numeral n"
    by simp
  then show "bitlen (numeral (Num.Bit1 n)) = bitlen (numeral n) + 1"
    by (subst compute_bitlen) simp
qed

lemma floor_rat_numeral [simp]:
  "\<lfloor>(numeral a :: rat) / numeral b\<rfloor> = numeral a div numeral b"
  using floor_divide_of_int_eq [of "numeral a" "numeral b", where ?'a = rat] by simp

lemma floor_rat_one_numeral [simp]:
  "\<lfloor>(1 :: rat) / numeral b\<rfloor> = 1 div numeral b"
  using floor_divide_of_int_eq [of 1 "numeral b", where ?'a = rat] by simp

lemmas number_eval = double_def round_magnitude_def ulp_exponent_def ilog2_def round_even_def
  emin_def overflow_threshold_def Let_def

text \<open>
  The number literals of the route comparison, as the numbers they are read as.
\<close>

lemma literal_values:
  "double (1 / 100) = Num (5764607523034235 / 576460752303423488)"
  "double (5 / 100) = Num (3602879701896397 / 72057594037927936)"
  "double (15 / 1000) = Num (8646911284551352 / 576460752303423488)"
  "double (997 / 1000) = Num (8980177656976769 / 9007199254740992)"
  "double (97 / 100) = Num (4368491638549381 / 4503599627370496)"
  "double (99 / 100) = Num (4458563631096791 / 4503599627370496)"
  "double (1 / 20) = Num (3602879701896397 / 72057594037927936)"
  "double (3 / 200) = Num (8646911284551352 / 576460752303423488)"
  "double 3 = Num 3" "double 5 = Num 5" "double 10 = Num 10" "double 100 = Num 100"
  by (simp_all add: number_eval)

text \<open>
  A rounding moves a value by at most half a unit of its last place; below \<open>2 ^ k\<close> that
  is at most \<open>2 ^ (k - 54)\<close>, and the result is finite.
\<close>

lemma round_magnitude_error:
  assumes "0 < x"
  shows "\<bar>round_magnitude x - x\<bar> \<le> 2 powi ulp_exponent x / 2"
proof -
  define e where "e = ulp_exponent x"
  define q where "q = x / 2 powi e"
  have x: "x = q * 2 powi e"
    by (simp add: q_def)
  have "round_magnitude x - x = (of_int (round_even q) - q) * 2 powi e"
    unfolding round_magnitude_def e_def [symmetric] q_def [symmetric]
    by (subst x) (simp add: algebra_simps)
  then have "\<bar>round_magnitude x - x\<bar> = \<bar>of_int (round_even q) - q\<bar> * 2 powi e"
    by (simp add: abs_mult)
  also have "\<dots> \<le> 1 / 2 * 2 powi e"
    by (intro mult_right_mono round_even_error) simp
  finally show ?thesis
    by (simp add: e_def)
qed

lemma ulp_exponent_le:
  assumes "0 < x" and "x < 2 powi k" and "emin \<le> k - 53"
  shows "ulp_exponent x \<le> k - 53"
proof -
  have "ilog2 x < k"
  proof (rule ccontr)
    assume "\<not> ilog2 x < k"
    then have "(2 :: rat) powi k \<le> 2 powi ilog2 x"
      by (intro two_powi_le) simp
    also have "\<dots> \<le> x"
      using assms(1) by (rule ilog2_bounds)
    finally show False
      using assms(2) by simp
  qed
  with assms(3) show ?thesis
    by (simp add: ulp_exponent_def)
qed

lemma overflow_threshold_powi: "overflow_threshold = 2 powi 1024"
proof -
  have "(2 :: rat) powi int 1024 = 2 ^ 1024"
    by (rule power_int_of_nat)
  then show ?thesis
    unfolding overflow_threshold_def by (simp only: of_nat_numeral)
qed

lemma round_magnitude_near:
  assumes "0 < x" and "x < 2 powi k" and "emin \<le> k - 53" and "k \<le> 1023"
  shows "\<bar>round_magnitude x - x\<bar> \<le> 2 powi (k - 54)"
    and "round_magnitude x < overflow_threshold"
proof -
  have "\<bar>round_magnitude x - x\<bar> \<le> 2 powi ulp_exponent x / 2"
    using assms(1) by (rule round_magnitude_error)
  also have "(2 :: rat) powi ulp_exponent x \<le> 2 powi (k - 53)"
    by (intro two_powi_le ulp_exponent_le assms)
  also have "(2 :: rat) powi (k - 53) / 2 = 2 powi (k - 54)"
    using two_powi_diff [of "k - 53" 1] by simp
  finally show near: "\<bar>round_magnitude x - x\<bar> \<le> 2 powi (k - 54)"
    by simp
  have "(2 :: rat) powi (k - 54) \<le> 2 powi k"
    by (intro two_powi_le) simp
  with near assms(2) have "round_magnitude x < 2 powi k + 2 powi k"
    by linarith
  also have "(2 :: rat) powi k + 2 powi k = 2 powi (k + 1)"
    using two_powi_split [of k 1] by simp
  also have "\<dots> \<le> 2 powi 1024"
    using assms(4) by (intro two_powi_le) simp
  finally show "round_magnitude x < overflow_threshold"
    by (simp only: overflow_threshold_powi)
qed

lemma double_near:
  assumes "\<bar>x\<bar> < 2 powi k" and "emin \<le> k - 53" and "k \<le> 1023"
  shows "\<exists>y. finite_value (double x) = Some y \<and> \<bar>y - x\<bar> \<le> 2 powi (k - 54)"
proof -
  consider "x = 0" | "0 < x" | "x < 0"
    by linarith
  then show ?thesis
  proof cases
    case 1
    then show ?thesis
      by (simp add: finite_value_def)
  next
    case 2
    with assms have "x < 2 powi k"
      by simp
    from round_magnitude_near [OF 2 this assms(2,3)] 2 show ?thesis
      by (simp add: double_pos_value finite_value_def)
  next
    case 3
    with assms have pos: "0 < - x" and "- x < 2 powi k"
      by simp_all
    from round_magnitude_near [OF this assms(2,3)] 3 show ?thesis
      by (auto simp: double_neg_value finite_value_def)
  qed
qed

lemma finite_value_nonzero: "finite_value v = Some y \<Longrightarrow> y \<noteq> 0 \<Longrightarrow> v = Num y"
  by (cases v) (simp_all add: finite_value_def)

text \<open>
  The order of the numbers, and the sign of a difference. The finite numbers are multiples
  of \<open>2 ^ emin\<close>, so the difference of two distinct ones is at least that far from 0 and
  does not round to a zero: \<open>b - a\<close> is at most 0 exactly when \<open>b <= a\<close>. The difference
  of an infinity and itself is NaN.
\<close>

lemma number_le_refl: "v \<noteq> NaN \<Longrightarrow> number_le v v"
  by (cases v) simp_all

lemma number_le_trans: "number_le a b \<Longrightarrow> number_le b c \<Longrightarrow> number_le a c"
  by (cases a; cases b; cases c) simp_all

lemma number_le_total: "a \<noteq> NaN \<Longrightarrow> b \<noteq> NaN \<Longrightarrow> number_le a b \<or> number_le b a"
  by (cases a; cases b) auto

lemma number_le_finite:
  "finite_value a = Some x \<Longrightarrow> finite_value b = Some y \<Longrightarrow> number_le b a \<longleftrightarrow> y \<le> x"
  by (cases a; cases b) (simp_all add: finite_value_def)

lemma on_grid_not_NaN: "on_grid v \<Longrightarrow> v \<noteq> NaN"
  by (simp add: on_grid_def)

lemma grid_difference_negative:
  fixes j k :: int
  assumes "of_int j * (2 :: rat) powi emin < of_int k * 2 powi emin"
  shows "nonpositive (double (of_int j * 2 powi emin - of_int k * 2 powi emin))"
proof -
  define g :: rat where "g = 2 powi emin"
  have g: "0 < g"
    by (simp add: g_def)
  from assms have "of_int j * g < of_int k * g"
    by (simp add: g_def)
  with g have "j < k"
    by (simp add: mult_less_cancel_right)
  then have "j - k \<le> - 1"
    by simp
  then have "(of_int (j - k) :: rat) \<le> of_int (- 1)"
    by (simp only: of_int_le_iff)
  with g have "of_int (j - k) * g \<le> of_int (- 1) * g"
    by (intro mult_right_mono) simp_all
  then have "of_int j * g - of_int k * g \<le> - g"
    by (simp add: algebra_simps)
  then have "of_int j * 2 powi emin - of_int k * 2 powi emin \<le> - ((2 :: rat) powi emin)"
    by (simp add: g_def)
  from double_negative [OF this] show ?thesis
    by (auto simp: nonpositive_def)
qed

lemma grid_difference_positive:
  fixes j k :: int
  assumes "of_int k * (2 :: rat) powi emin < of_int j * 2 powi emin"
  shows "\<not> nonpositive (double (of_int j * 2 powi emin - of_int k * 2 powi emin))"
proof -
  define g :: rat where "g = 2 powi emin"
  have g: "0 < g"
    by (simp add: g_def)
  from assms have "of_int k * g < of_int j * g"
    by (simp add: g_def)
  with g have "k < j"
    by (simp add: mult_less_cancel_right)
  then have "1 \<le> j - k"
    by simp
  then have "(of_int 1 :: rat) \<le> of_int (j - k)"
    by (simp only: of_int_le_iff)
  with g have "of_int 1 * g \<le> of_int (j - k) * g"
    by (intro mult_right_mono) simp_all
  then have "g \<le> of_int j * g - of_int k * g"
    by (simp add: algebra_simps)
  then have "(2 :: rat) powi emin \<le> of_int j * 2 powi emin - of_int k * 2 powi emin"
    by (simp add: g_def)
  from double_positive [OF this] show ?thesis
    by (auto simp: nonpositive_def)
qed

lemma nonpositive_zero [simp]: "nonpositive (zero s)"
  by (simp add: nonpositive_def zero_def)

lemma nonpositive_sub_finite:
  assumes "finite_value a = Some x" and "finite_value b = Some y"
    and "on_grid a" and "on_grid b"
  shows "nonpositive (number_sub b a) \<longleftrightarrow> y \<le> x"
proof -
  from assms obtain k j where x: "x = of_int k * 2 powi emin" and y: "y = of_int j * 2 powi emin"
    by (auto simp: on_grid_def)
  from assms have nan: "a \<noteq> NaN" "b \<noteq> NaN"
    by (auto simp: on_grid_def)
  consider "y = x" | "y < x" | "x < y"
    by linarith
  then show ?thesis
  proof cases
    case 1
    with assms nan show ?thesis
      by (simp add: number_sub_def)
  next
    case 2
    then have "nonpositive (double (y - x))"
      unfolding x y by (rule grid_difference_negative)
    with 2 assms nan show ?thesis
      by (simp add: number_sub_def)
  next
    case 3
    then have "\<not> nonpositive (double (y - x))"
      unfolding x y by (rule grid_difference_positive)
    with 3 assms nan show ?thesis
      by (simp add: number_sub_def)
  qed
qed

lemma nonpositive_sub:
  assumes "on_grid a" and "on_grid b"
  shows "nonpositive (number_sub b a) \<longleftrightarrow> number_le b a"
proof (cases "finite_value a")
  case None
  with assms show ?thesis
    by (cases a; cases b)
      (simp_all add: on_grid_def finite_value_def number_sub_def nonpositive_def infinity_def
        negative_def)
next
  case a: (Some x)
  show ?thesis
  proof (cases "finite_value b")
    case None
    with a assms show ?thesis
      by (cases a; cases b)
        (simp_all add: on_grid_def finite_value_def number_sub_def nonpositive_def infinity_def
          negative_def)
  next
    case (Some y)
    with a assms show ?thesis
      by (simp add: nonpositive_sub_finite number_le_finite)
  qed
qed

text \<open>
  Where NaN cannot come from: a product of two finite numbers, a product with a finite
  number other than 0, a sum or a difference with a finite number.
\<close>

lemma number_mul_not_NaN:
  "finite_value a \<noteq> None \<Longrightarrow> finite_value b \<noteq> None \<Longrightarrow> number_mul a b \<noteq> NaN"
  by (cases a; cases b) (simp_all add: number_mul_def finite_value_def zero_def)

lemma number_mul_Num_not_NaN: "v \<noteq> NaN \<Longrightarrow> y \<noteq> 0 \<Longrightarrow> number_mul v (Num y) \<noteq> NaN"
  by (cases v) (simp_all add: number_mul_def finite_value_def zero_def infinity_def)

lemma number_add_Num_not_NaN: "v \<noteq> NaN \<Longrightarrow> number_add v (Num y) \<noteq> NaN"
  by (cases v) (simp_all add: number_add_def finite_value_def zero_def)

lemma number_sub_Num_not_NaN: "v \<noteq> NaN \<Longrightarrow> number_sub (Num a) v \<noteq> NaN"
  by (cases v) (simp_all add: number_sub_def finite_value_def zero_def infinity_def)

lemma toFixed2_NaNString [simp]: "toFixed2 v = NaNString \<longleftrightarrow> v = NaN"
  by (cases v) (simp_all add: toFixed2_def Let_def)

lemma on_grid_parseFloat: "s \<noteq> NaNString \<Longrightarrow> on_grid (parseFloat s)"
  by (cases s) (simp_all add: parseFloat_def, simp_all add: on_grid_def finite_value_def)

text \<open>
  The difference of two amounts that were printed with two decimals and read back, printed
  again: below \<open>2 ^ 46\<close> hundredths the roundings of \<open>parseFloat\<close> and of the subtraction
  together stay under \<open>2 ^ - 12\<close>, so \<open>toFixed(2)\<close> returns the exact difference of the
  two decimals. The difference of a number and itself prints as \<open>''0.00''\<close> when the number
  is finite, and as \<open>''NaN''\<close> otherwise.
\<close>

lemma toFixed2_near:
  fixes d :: int
  assumes "\<bar>y - of_int d / 100\<bar> \<le> 1 / 4096" and "d \<noteq> 0" and "\<bar>d\<bar> < 2 ^ 47"
  shows "toFixed2 (Num y) = Fixed d"
proof -
  from assms(1) have lo: "of_int d / 100 - 1 / 4096 \<le> y" and hi: "y \<le> of_int d / 100 + 1 / 4096"
    by linarith+
  have "\<bar>of_int d :: rat\<bar> < 2 ^ 47"
    using assms(3) by (metis of_int_abs of_int_less_iff of_int_numeral of_int_power)
  then have small: "\<bar>y\<bar> < 10 ^ 21"
    using lo hi by (simp add: abs_if split: if_splits)
  show ?thesis
  proof (cases "0 < d")
    case True
    then have "(1 :: rat) \<le> of_int d"
      by (metis of_int_1_le_iff int_one_le_iff_zero_less)
    with lo have pos: "0 < y"
      by simp
    have "\<lfloor>y * 100 + 1 / 2\<rfloor> = d"
      using lo hi by (intro floor_unique) simp_all
    with pos small show ?thesis
      by (simp add: toFixed2_def Let_def)
  next
    case False
    with assms(2) have "d \<le> - 1"
      by simp
    then have "(of_int d :: rat) \<le> - 1"
      by (metis of_int_le_iff of_int_minus of_int_1)
    with hi have neg: "y < 0"
      by simp
    have "\<lfloor>- y * 100 + 1 / 2\<rfloor> = - d"
      using lo hi by (intro floor_unique) simp_all
    with neg small assms(2) show ?thesis
      by (simp add: toFixed2_def Let_def)
  qed
qed

lemma cents_bound:
  fixes n :: int
  assumes "\<bar>n\<bar> < 2 ^ 46"
  shows "\<bar>of_int n / 100 :: rat\<bar> < 2 powi 40"
proof -
  have "\<bar>of_int n :: rat\<bar> < 2 ^ 46"
    using assms by (metis of_int_abs of_int_less_iff of_int_numeral of_int_power)
  then show ?thesis
    by simp
qed

lemma savings_exact:
  fixes n m :: int
  assumes "\<bar>n\<bar> < 2 ^ 46" and "\<bar>m\<bar> < 2 ^ 46"
  shows "toFixed2 (number_sub (parseFloat (Fixed n)) (parseFloat (Fixed m))) = Fixed (n - m)"
proof -
  define a b :: rat where "a = of_int n / 100" and "b = of_int m / 100"
  have emin: "emin \<le> 40 - 53" "emin \<le> 41 - 53"
    by (simp_all add: emin_def)
  have "\<bar>a\<bar> < 2 powi 40" "\<bar>b\<bar> < 2 powi 40"
    unfolding a_def b_def using assms by (simp_all only: cents_bound)
  from this [THEN double_near, OF emin(1)]
  obtain A B where A: "finite_value (double a) = Some A" and B: "finite_value (double b) = Some B"
    and nearA: "\<bar>A - a\<bar> \<le> 1 / 16384" and nearB: "\<bar>B - b\<bar> \<le> 1 / 16384"
    by auto
  have diff: "a - b = of_int (n - m) / 100"
    by (simp add: a_def b_def diff_divide_distrib)
  show ?thesis
  proof (cases "n = m")
    case True
    with A B show ?thesis
      by (simp add: parseFloat_def number_sub_def zero_def toFixed2_def a_def b_def)
  next
    case False
    then have "1 \<le> \<bar>n - m\<bar>"
      by simp
    then have "(1 :: rat) \<le> \<bar>of_int (n - m)\<bar>"
      by (metis of_int_abs of_int_1_le_iff)
    then have far: "1 / 100 \<le> \<bar>a - b\<bar>"
      unfolding diff by simp
    with nearA nearB have nz: "A - B \<noteq> 0"
      by linarith
    have "\<bar>of_int n :: rat\<bar> < 2 ^ 46" "\<bar>of_int m :: rat\<bar> < 2 ^ 46"
      using assms by (metis of_int_abs of_int_less_iff of_int_numeral of_int_power)+
    moreover have "\<bar>a\<bar> * 100 = \<bar>of_int n\<bar>" "\<bar>b\<bar> * 100 = \<bar>of_int m\<bar>"
      by (simp_all add: a_def b_def)
    ultimately have "\<bar>a\<bar> < 1000000000000" "\<bar>b\<bar> < 1000000000000"
      by simp_all
    with nearA nearB have "\<bar>A - B\<bar> < 2199023255552"
      by linarith
    then have "\<bar>A - B\<bar> < 2 powi 41"
      by simp
    from double_near [OF this emin(2)]
    obtain D where D: "finite_value (double (A - B)) = Some D"
      and nearD: "\<bar>D - (A - B)\<bar> \<le> 1 / 8192"
      by auto
    from nearA nearB nearD have near: "\<bar>D - (a - b)\<bar> \<le> 1 / 4096"
      by linarith
    with far have "D \<noteq> 0"
      by linarith
    with D have "double (A - B) = Num D"
      by (rule finite_value_nonzero)
    with A B nz have sub: "number_sub (parseFloat (Fixed n)) (parseFloat (Fixed m)) = Num D"
      by (simp add: parseFloat_def number_sub_def a_def b_def)
    have "\<bar>n - m\<bar> < 2 ^ 47"
      using assms by simp
    with near False show ?thesis
      unfolding sub diff by (intro toFixed2_near) simp_all
  qed
qed

lemma savings_self:
  "toFixed2 (number_sub T T) = (if finite_value T = None then NaNString else Fixed 0)"
  by (cases T)
    (simp_all add: number_sub_def finite_value_def zero_def negative_def toFixed2_def)

section \<open>Properties of the route comparison\<close>

lemma compare_routes_handler_valid:
  assumes "cb_amount body = Some amount" and "amount \<noteq> 0" and "\<not> amount < 10"
    and "cb_fromCurrency body = Some f" and "f \<noteq> []"
    and "cb_toCurrency body = Some t" and "t \<noteq> []"
  shows "compare_routes_handler svc axios_get ts t_resp body =
           (Inr \<lparr>routes = compareRoutes amount (rate (fst (getRate svc axios_get ts f t))),
                  midMarketRate = rate (fst (getRate svc axios_get ts f t)),
                  cr_timestamp = t_resp\<rparr>,
            snd (getRate svc axios_get ts f t))"
  using assms by (simp add: compare_routes_handler_def split: prod.splits)

subsection \<open>Validation of a comparison request\<close>

text \<open>
  C7, as stated, fails: the handler has no check of the form of a currency code. A request
  with the code \<open>?!\<close> is answered with quotes (at the fallback rate 1 when the provider does
  not know the pair). And the amount 0 is reported as a missing field, not as an amount
  below the minimum, which is what the amount 5 gets.
\<close>

theorem compare_routes_currency_counterexample:
  "compare_routes_handler new_exchange_service (\<lambda>f t. RequestFailed ''Not Found'') (0, 0, 0) 0
     \<lparr>cb_amount = Some 100, cb_fromCurrency = Some ''?!'', cb_toCurrency = Some ''MXN''\<rparr> =
   (Inr \<lparr>routes = compareRoutes 100 1, midMarketRate = 1, cr_timestamp = 0\<rparr>,
    new_exchange_service\<lparr>upstream_calls := [(''?!'', ''MXN'')]\<rparr>) \<and>
   compare_routes_handler new_exchange_service (\<lambda>f t. RequestFailed ''Not Found'') (0, 0, 0) 0
     \<lparr>cb_amount = Some 0, cb_fromCurrency = Some ''USD'', cb_toCurrency = Some ''MXN''\<rparr> =
   (Inl (HttpError 400 ''Missing required fields: amount, fromCurrency, toCurrency''),
    new_exchange_service) \<and>
   compare_routes_handler new_exchange_service (\<lambda>f t. RequestFailed ''Not Found'') (0, 0, 0) 0
     \<lparr>cb_amount = Some 5, cb_fromCurrency = Some ''USD'', cb_toCurrency = Some ''MXN''\<rparr> =
   (Inl (HttpError 400 ''Minimum transfer amount is $10''), new_exchange_service)"
  by (simp add: compare_routes_handler_def getRate_def new_exchange_service_def
      getMockRate_def mockRates_def cacheKey_def)

text \<open>
  C7, amended. The handler answers 400 \<open>Missing required fields\<close> when the amount is absent
  or 0 or a currency code is absent or empty; otherwise 400 \<open>Minimum transfer amount is $10\<close>
  when the amount is below 10 (negative amounts included); otherwise it returns quotes,
  whatever the two non-empty currency codes are.
\<close>

theorem compare_routes_validation:
  "(falsy_num (cb_amount body) \<or> falsy_str (cb_fromCurrency body)
      \<or> falsy_str (cb_toCurrency body) \<longrightarrow>
    compare_routes_handler svc axios_get ts t_resp body =
      (Inl (HttpError 400 ''Missing required fields: amount, fromCurrency, toCurrency''), svc))
   \<and>
   (cb_amount body = Some a \<and> a \<noteq> 0 \<and> cb_fromCurrency body = Some f \<and> f \<noteq> []
      \<and> cb_toCurrency body = Some t \<and> t \<noteq> [] \<longrightarrow>
    (a < 10 \<longrightarrow>
      compare_routes_handler svc axios_get ts t_resp body =
        (Inl (HttpError 400 ''Minimum transfer amount is $10''), svc)) \<and>
    (10 \<le> a \<longrightarrow>
      (\<exists>resp svc'. compare_routes_handler svc axios_get ts t_resp body = (Inr resp, svc'))))"
proof (intro conjI impI)
  assume "falsy_num (cb_amount body) \<or> falsy_str (cb_fromCurrency body)
      \<or> falsy_str (cb_toCurrency body)"
  then show "compare_routes_handler svc axios_get ts t_resp body =
      (Inl (HttpError 400 ''Missing required fields: amount, fromCurrency, toCurrency''), svc)"
    unfolding compare_routes_handler_def by (simp only: if_True)
next
  assume ok: "cb_amount body = Some a \<and> a \<noteq> 0 \<and> cb_fromCurrency body = Some f \<and> f \<noteq> []
      \<and> cb_toCurrency body = Some t \<and> t \<noteq> []"
  {
    assume "a < 10"
    with ok show "compare_routes_handler svc axios_get ts t_resp body =
        (Inl (HttpError 400 ''Minimum transfer amount is $10''), svc)"
      by (simp add: compare_routes_handler_def)
  }
  {
    assume "10 \<le> a"
    with ok show "\<exists>resp svc'. compare_routes_handler svc axios_get ts t_resp body = (Inr resp, svc')"
      by (simp add: compare_routes_handler_valid)
  }
qed

text \<open>C7, witness: an absent amount, the amount 5 and the amount 10.\<close>

theorem compare_routes_validation_witness:
  "compare_routes_handler new_exchange_service (\<lambda>f t. Reply ''success'' (35 / 2)) (0, 0, 0) 0
     \<lparr>cb_amount = None, cb_fromCurrency = Some ''USD'', cb_toCurrency = Some ''MXN''\<rparr> =
     (Inl (HttpError 400 ''Missing required fields: amount, fromCurrency, toCurrency''),
      new_exchange_service) \<and>
   compare_routes_handler new_exchange_service (\<lambda>f t. Reply ''success'' (35 / 2)) (0, 0, 0) 0
     \<lparr>cb_amount = Some 5, cb_fromCurrency = Some ''USD'', cb_toCurrency = Some ''MXN''\<rparr> =
     (Inl (HttpError 400 ''Minimum transfer amount is $10''), new_exchange_service) \<and>
   (\<exists>resp svc'.
     compare_routes_handler new_exchange_service (\<lambda>f t. Reply ''success'' (35 / 2)) (0, 0, 0) 0
       \<lparr>cb_amount = Some 10, cb_fromCurrency = Some ''USD'', cb_toCurrency = Some ''MXN''\<rparr> =
       (Inr resp, svc'))"
  using
    compare_routes_validation [of
      "\<lparr>cb_amount = None, cb_fromCurrency = Some ''USD'', cb_toCurrency = Some ''MXN''\<rparr>"
      new_exchange_service "\<lambda>f t. Reply ''success'' (35 / 2)" "(0, 0, 0)" 0 5 "''USD''" "''MXN''"]
    compare_routes_validation [of
      "\<lparr>cb_amount = Some 5, cb_fromCurrency = Some ''USD'', cb_toCurrency = Some ''MXN''\<rparr>"
      new_exchange_service "\<lambda>f t. Reply ''success'' (35 / 2)" "(0, 0, 0)" 0 5 "''USD''" "''MXN''"]
    compare_routes_validation [of
      "\<lparr>cb_amount = Some 10, cb_fromCurrency = Some ''USD'', cb_toCurrency = Some ''MXN''\<rparr>"
      new_exchange_service "\<lambda>f t. Reply ''success'' (35 / 2)" "(0, 0, 0)" 0 10 "''USD''" "''MXN''"]
  by simp

subsection \<open>The sort\<close>

text \<open>
  The sort permutes its list. With the handler's comparator, and no amount received
  \<open>''NaN''\<close>, the result is in descending order of the amounts as \<open>parseFloat\<close> reads
  them.
\<close>

lemma mset_insert_by [simp]: "mset (insert_by cmp x ys) = add_mset x (mset ys)"
  by (induction ys) simp_all

lemma mset_js_sort [simp]: "mset (js_sort cmp xs) = mset xs"
  unfolding js_sort_def by (induction xs) simp_all

lemma set_insert_by [simp]: "set (insert_by cmp x ys) = insert x (set ys)"
  by (induction ys) auto

lemma set_js_sort [simp]: "set (js_sort cmp xs) = set xs"
  unfolding js_sort_def by (induction xs) simp_all

lemma filter_insert_by_other:
  "\<not> P x \<Longrightarrow> filter P (insert_by cmp x ys) = filter P ys"
  by (induction ys) auto

lemma filter_insert_by_only:
  "P x \<Longrightarrow> filter P ys = [] \<Longrightarrow> filter P (insert_by cmp x ys) = [x]"
  by (induction ys) (auto split: if_splits)

lemma by_received_desc_le:
  assumes "amountReceived p \<noteq> NaNString" and "amountReceived q \<noteq> NaNString"
  shows "nonpositive (by_received_desc p q) \<longleftrightarrow>
    number_le (parseFloat (amountReceived q)) (parseFloat (amountReceived p))"
  unfolding by_received_desc_def using assms by (intro nonpositive_sub on_grid_parseFloat)

lemma sorted_insert_by_received:
  assumes "sorted_wrt (\<lambda>p q. number_le (parseFloat (amountReceived q)) (parseFloat (amountReceived p))) ys"
    and "\<forall>q \<in> set (x # ys). amountReceived q \<noteq> NaNString"
  shows "sorted_wrt (\<lambda>p q. number_le (parseFloat (amountReceived q)) (parseFloat (amountReceived p)))
    (insert_by by_received_desc x ys)"
  using assms
proof (induction ys)
  case Nil
  then show ?case by simp
next
  case (Cons y ys)
  let ?k = "\<lambda>q. parseFloat (amountReceived q)"
  from Cons.prems have nan: "amountReceived x \<noteq> NaNString" "amountReceived y \<noteq> NaNString"
    by simp_all
  show ?case
  proof (cases "nonpositive (by_received_desc x y)")
    case True
    with nan have xy: "number_le (?k y) (?k x)"
      by (simp add: by_received_desc_le)
    have "number_le (?k q) (?k x)" if "q \<in> set ys" for q
    proof -
      from Cons.prems(1) that have "number_le (?k q) (?k y)"
        by simp
      from this xy show ?thesis
        by (rule number_le_trans)
    qed
    with True xy Cons.prems(1) show ?thesis
      by simp
  next
    case False
    with nan have "\<not> number_le (?k y) (?k x)"
      by (simp add: by_received_desc_le)
    moreover from nan have "?k x \<noteq> NaN" "?k y \<noteq> NaN"
      by (simp_all add: on_grid_parseFloat on_grid_not_NaN)
    ultimately have yx: "number_le (?k x) (?k y)"
      using number_le_total by blast
    from Cons.prems have "sorted_wrt (\<lambda>p q. number_le (?k q) (?k p)) (insert_by by_received_desc x ys)"
      by (intro Cons.IH) simp_all
    with False yx Cons.prems(1) show ?thesis
      by simp
  qed
qed

lemma sorted_js_sort_received:
  assumes "\<forall>q \<in> set xs. amountReceived q \<noteq> NaNString"
  shows "sorted_wrt (\<lambda>p q. number_le (parseFloat (amountReceived q)) (parseFloat (amountReceived p)))
    (js_sort by_received_desc xs)"
  using assms unfolding js_sort_def
proof (induction xs)
  case Nil
  then show ?case by simp
next
  case (Cons x xs)
  then have "sorted_wrt (\<lambda>p q. number_le (parseFloat (amountReceived q)) (parseFloat (amountReceived p)))
     (foldr (insert_by by_received_desc) xs [])"
    by simp
  moreover have "set (foldr (insert_by by_received_desc) xs []) = set xs"
    using set_js_sort [of by_received_desc xs] by (simp add: js_sort_def)
  ultimately show ?case
    using Cons.prems by (simp add: sorted_insert_by_received)
qed

subsection \<open>The quotes\<close>

text \<open>
  The savings pass changes \<open>savings\<close> and \<open>savingsPercent\<close> only, and the response holds
  the three quotes after that pass. With a finite amount and a finite rate other than 0 no
  amount received is \<open>''NaN''\<close>. A fee \<open>a * c\<close> is at most a fee \<open>a * c' + k\<close> with
  \<open>c <= c'\<close> and \<open>0 <= k\<close>: rounding is monotone.
\<close>

lemma recommended_set_savings [simp]: "recommended (set_savings T q) = recommended q"
  by (simp add: set_savings_def Let_def)

lemma route_type_set_savings [simp]: "route_type (set_savings T q) = route_type q"
  by (simp add: set_savings_def Let_def)

lemma amountSent_set_savings [simp]: "amountSent (set_savings T q) = amountSent q"
  by (simp add: set_savings_def Let_def)

lemma fee_set_savings [simp]: "fee (set_savings T q) = fee q"
  by (simp add: set_savings_def Let_def)

lemma exchangeRate_set_savings [simp]: "exchangeRate (set_savings T q) = exchangeRate q"
  by (simp add: set_savings_def Let_def)

lemma amountReceived_set_savings [simp]: "amountReceived (set_savings T q) = amountReceived q"
  by (simp add: set_savings_def Let_def)

lemma mset_compareRoutes:
  "mset (compareRoutes amount r) =
     image_mset (set_savings (parseFloat (amountReceived (initial_routes (double amount) (double r) ! 1))))
       (mset (initial_routes (double amount) (double r)))"
  by (simp add: compareRoutes_def Let_def)

lemma set_compareRoutes:
  "set (compareRoutes amount r) =
     set_savings (parseFloat (amountReceived (initial_routes (double amount) (double r) ! 1))) `
       set (initial_routes (double amount) (double r))"
  by (simp add: compareRoutes_def Let_def)

lemma initial_received_not_NaN:
  assumes "x \<noteq> 0"
  shows "\<forall>q \<in> set (initial_routes (Num a) (Num x)). amountReceived q \<noteq> NaNString"
  using assms
  by (simp add: initial_routes_def literal_values number_mul_Num_not_NaN number_add_Num_not_NaN
      number_sub_Num_not_NaN number_mul_not_NaN finite_value_def)

lemma compareRoutes_sorted:
  assumes "double amount = Num a" and "double r = Num x" and "x \<noteq> 0"
  shows "sorted_wrt (\<lambda>p q. number_le (parseFloat (amountReceived q)) (parseFloat (amountReceived p)))
    (compareRoutes amount r)"
  using initial_received_not_NaN [OF assms(3), of a] assms(1,2)
  by (simp add: compareRoutes_def Let_def sorted_js_sort_received)

lemma compareRoutes_recommended:
  "map route_type (filter recommended (compareRoutes amount r)) = [''xrpl_direct'']"
  by (simp add: compareRoutes_def Let_def js_sort_def initial_routes_def
      filter_insert_by_other filter_insert_by_only)

lemma fee_le:
  assumes "0 < a" and "0 < c" and "c \<le> c'" and "0 \<le> k"
  shows "number_le (number_mul (Num a) (Num c)) (number_add (number_mul (Num a) (Num c')) (Num k))"
proof -
  from assms have pos: "0 < a * c" "0 < a * c'" and le: "a * c \<le> a * c'"
    by simp_all
  from assms have m: "number_mul (Num a) (Num c) = double (a * c)"
    "number_mul (Num a) (Num c') = double (a * c')"
    by (simp_all add: number_mul_def finite_value_def)
  have step: "number_le (double (a * c)) (double (a * c'))"
    using le by (rule double_mono)
  show ?thesis
  proof (cases "overflow_threshold \<le> round_magnitude (a * c')")
    case True
    with pos have "double (a * c') = PosInfinity"
      by (simp add: double_pos_value)
    then show ?thesis
      unfolding m by (cases "double (a * c)") (simp_all add: number_add_def finite_value_def)
  next
    case False
    define f where "f = round_magnitude (a * c')"
    from False pos have v: "double (a * c') = Num f"
      by (simp add: double_pos_value f_def)
    from pos have f: "0 \<le> f"
      unfolding f_def by (intro round_magnitude_nonneg)
    have "double f = Num f"
      using v by (rule double_idem)
    moreover have "number_le (double f) (double (f + k))"
      using assms(4) by (intro double_mono) simp
    ultimately have "number_le (Num f) (double (f + k))"
      by simp
    moreover have "number_add (Num f) (Num k) = double (f + k)"
      using f assms(4) by (simp add: number_add_def finite_value_def zero_def)
    ultimately have "number_le (double (a * c')) (number_add (double (a * c')) (Num k))"
      unfolding v by simp
    with step show ?thesis
      unfolding m by (rule number_le_trans)
  qed
qed

lemma amount_value:
  assumes "10 \<le> amount" and "double amount = Num a"
  shows "10 \<le> a"
proof -
  from assms(1) have "number_le (double 10) (double amount)"
    by (rule double_mono)
  with assms(2) show ?thesis
    by (simp add: literal_values)
qed

lemma direct_fee_least:
  assumes "10 \<le> a" and "q \<in> set (initial_routes (Num a) r)" and "recommended q"
    and "p \<in> set (initial_routes (Num a) r)"
  shows "number_le (fee q) (fee p)"
proof -
  from assms(1) have a: "0 < a"
    by simp
  from assms(2,3) have q: "fee q = number_mul (Num a) (double (1 / 100))"
    by (auto simp: initial_routes_def)
  have refl: "number_le (number_mul (Num a) (double (1 / 100))) (number_mul (Num a) (double (1 / 100)))"
    by (intro number_le_refl number_mul_not_NaN) (simp_all add: literal_values finite_value_def)
  have bank: "number_le (number_mul (Num a) (double (1 / 100)))
      (number_add (number_mul (Num a) (double (5 / 100))) (double 5))"
    unfolding literal_values using a by (intro fee_le) simp_all
  have competitor: "number_le (number_mul (Num a) (double (1 / 100)))
      (number_add (number_mul (Num a) (double (15 / 1000))) (double 3))"
    unfolding literal_values using a by (intro fee_le) simp_all
  from assms(4) refl bank competitor show ?thesis
    unfolding q by (auto simp: initial_routes_def)
qed

lemma quote_formulas:
  assumes "q \<in> set (compareRoutes amount r)"
  shows "amountSent q = double amount"
    and "route_type q = ''xrpl_direct'' \<Longrightarrow>
      fee q = number_mul (amountSent q) (double (1 / 100)) \<and>
      exchangeRate q = number_mul (double r) (double (997 / 1000)) \<and>
      amountReceived q =
        toFixed2 (number_mul (number_mul (number_sub (amountSent q) (fee q)) (double r))
          (double (997 / 1000)))"
    and "route_type q = ''bank_transfer'' \<Longrightarrow>
      fee q = number_add (number_mul (amountSent q) (double (5 / 100))) (double 5) \<and>
      exchangeRate q = number_mul (double r) (double (97 / 100)) \<and>
      amountReceived q =
        toFixed2 (number_mul (number_mul (number_sub (amountSent q) (fee q)) (double r))
          (double (97 / 100)))"
    and "route_type q = ''competitor'' \<Longrightarrow>
      fee q = number_add (number_mul (amountSent q) (double (15 / 1000))) (double 3) \<and>
      exchangeRate q = number_mul (double r) (double (99 / 100)) \<and>
      amountReceived q =
        toFixed2 (number_mul (number_mul (number_sub (amountSent q) (fee q)) (double r))
          (double (99 / 100)))"
  using assms by (auto simp: set_compareRoutes initial_routes_def)

lemma traditional_in_compareRoutes:
  "tr \<in> set (compareRoutes amount r) \<Longrightarrow> route_type tr = ''bank_transfer'' \<Longrightarrow>
   amountReceived tr = amountReceived (initial_routes (double amount) (double r) ! 1)"
  by (auto simp: set_compareRoutes initial_routes_def)

lemma traditional_present:
  "\<exists>tr \<in> set (compareRoutes amount r). route_type tr = ''bank_transfer''"
  by (simp add: set_compareRoutes initial_routes_def)

lemma savings_in_compareRoutes:
  assumes "q \<in> set (compareRoutes amount r)"
  defines "T \<equiv> parseFloat (amountReceived (initial_routes (double amount) (double r) ! 1))"
  shows "savings q = toFixed2 (number_sub (parseFloat (amountReceived q)) T)"
    and "savingsPercent q =
      Some (toFixed2 (number_mul
        (number_div (number_sub (parseFloat (amountReceived q)) T) T) (double 100)))"
proof -
  from assms obtain q0 where q: "q = set_savings T q0"
    by (auto simp: set_compareRoutes)
  show "savings q = toFixed2 (number_sub (parseFloat (amountReceived q)) T)"
    unfolding q by (simp add: set_savings_def Let_def)
  show "savingsPercent q =
      Some (toFixed2 (number_mul
        (number_div (number_sub (parseFloat (amountReceived q)) T) T) (double 100)))"
    unfolding q by (simp add: set_savings_def Let_def)
qed

text \<open>The quotes for 100 at the rate 17.5, computed step by step.\<close>

lemmas route_eval = compareRoutes_def initial_routes_def js_sort_def set_savings_def
  by_received_desc_def toFixed2_def parseFloat_def number_mul_def number_sub_def
  number_add_def number_div_def finite_value_def negative_def zero_def infinity_def
  nonpositive_def

lemma compareRoutes_scenario:
  "map (\<lambda>q. (route_type q, fee q, exchangeRate q, amountReceived q, savings q, savingsPercent q))
     (compareRoutes 100 (35 / 2)) =
   [(''xrpl_direct'', Num 1, Num (4911034656159171 / 281474976710656), Fixed 172730,
     Fixed 19955, Some (Fixed 1306)),
    (''competitor'', Num (9 / 2), Num (4876553971512115 / 281474976710656), Fixed 165454,
     Fixed 12679, Some (Fixed 830)),
    (''bank_transfer'', Num 10, Num (4778037729663385 / 281474976710656), Fixed 152775,
     Fixed 0, Some (Fixed 0))]"
  by (simp add: route_eval number_eval)

subsection \<open>Ordering and the recommended route\<close>

text \<open>
  C5. A request with an amount of at least 10 and two non-empty currency codes, whose
  amount is read as the finite number \<open>a\<close> and for which the rate service returns a rate
  that is the finite positive number \<open>x\<close>, is answered with exactly the three quotes the
  handler computes from \<open>a\<close> and \<open>x\<close>: the direct, the traditional and the competitor
  quote, each with its fee, its rate and its amount received as binary64 computations,
  the direct one alone flagged \<open>recommended\<close>. The quotes are in descending order of the
  amount received; exactly one quote of the response carries the flag, the direct route
  \<open>xrpl_direct\<close>, wherever the sort puts it, and no quote has a lower fee. (A JSON number
  beyond the binary64 range is read as \<open>Infinity\<close>; every amount received is then
  \<open>''NaN''\<close>, and the statement does not cover such a request.)
\<close>

theorem compare_routes_sorted_one_recommended:
  assumes "cb_amount body = Some amount" and "10 \<le> amount" and "double amount = Num a"
    and "cb_fromCurrency body = Some f" and "f \<noteq> []"
    and "cb_toCurrency body = Some t" and "t \<noteq> []"
    and "rate (fst (getRate svc axios_get ts f t)) = r" and "double r = Num x" and "0 < x"
  shows "\<exists>resp.
           fst (compare_routes_handler svc axios_get ts t_resp body) = Inr resp \<and>
           midMarketRate resp = r \<and>
           mset (map (\<lambda>q. (route_type q, amountSent q, fee q, exchangeRate q, amountReceived q,
                           recommended q)) (routes resp)) =
             {#(''xrpl_direct'', Num a, number_mul (Num a) (double (1 / 100)),
                number_mul (Num x) (double (997 / 1000)),
                toFixed2 (number_mul
                  (number_mul (number_sub (Num a) (number_mul (Num a) (double (1 / 100)))) (Num x))
                  (double (997 / 1000))),
                True),
               (''bank_transfer'', Num a,
                number_add (number_mul (Num a) (double (5 / 100))) (double 5),
                number_mul (Num x) (double (97 / 100)),
                toFixed2 (number_mul
                  (number_mul
                    (number_sub (Num a)
                      (number_add (number_mul (Num a) (double (5 / 100))) (double 5)))
                    (Num x))
                  (double (97 / 100))),
                False),
               (''competitor'', Num a,
                number_add (number_mul (Num a) (double (15 / 1000))) (double 3),
                number_mul (Num x) (double (99 / 100)),
                toFixed2 (number_mul
                  (number_mul
                    (number_sub (Num a)
                      (number_add (number_mul (Num a) (double (15 / 1000))) (double 3)))
                    (Num x))
                  (double (99 / 100))),
                False)#} \<and>
           sorted_wrt
             (\<lambda>p q. number_le (parseFloat (amountReceived q)) (parseFloat (amountReceived p)))
             (routes resp) \<and>
           map route_type (filter recommended (routes resp)) = [''xrpl_direct''] \<and>
           (\<forall>q \<in> set (routes resp). recommended q \<longrightarrow>
              (\<forall>p \<in> set (routes resp). number_le (fee q) (fee p)))"
proof -
  let ?resp = "\<lparr>routes = compareRoutes amount r, midMarketRate = r, cr_timestamp = t_resp\<rparr>"
  from assms have "amount \<noteq> 0" and "\<not> amount < 10" by auto
  with assms have run: "fst (compare_routes_handler svc axios_get ts t_resp body) = Inr ?resp"
    by (simp add: compare_routes_handler_valid)
  have rate: "midMarketRate ?resp = r"
    by simp
  have quotes: "mset (map (\<lambda>q. (route_type q, amountSent q, fee q, exchangeRate q, amountReceived q,
                           recommended q)) (routes ?resp)) =
             {#(''xrpl_direct'', Num a, number_mul (Num a) (double (1 / 100)),
                number_mul (Num x) (double (997 / 1000)),
                toFixed2 (number_mul
                  (number_mul (number_sub (Num a) (number_mul (Num a) (double (1 / 100)))) (Num x))
                  (double (997 / 1000))),
                True),
               (''bank_transfer'', Num a,
                number_add (number_mul (Num a) (double (5 / 100))) (double 5),
                number_mul (Num x) (double (97 / 100)),
                toFixed2 (number_mul
                  (number_mul
                    (number_sub (Num a)
                      (number_add (number_mul (Num a) (double (5 / 100))) (double 5)))
                    (Num x))
                  (double (97 / 100))),
                False),
               (''competitor'', Num a,
                number_add (number_mul (Num a) (double (15 / 1000))) (double 3),
                number_mul (Num x) (double (99 / 100)),
                toFixed2 (number_mul
                  (number_mul
                    (number_sub (Num a)
                      (number_add (number_mul (Num a) (double (15 / 1000))) (double 3)))
                    (Num x))
                  (double (99 / 100))),
                False)#}"
    using assms(3,9) by (simp add: mset_compareRoutes initial_routes_def)
  from assms(10) have "x \<noteq> 0"
    by simp
  with assms(3,9) have ordered: "sorted_wrt
      (\<lambda>p q. number_le (parseFloat (amountReceived q)) (parseFloat (amountReceived p)))
      (routes ?resp)"
    by (simp add: compareRoutes_sorted)
  have one: "map route_type (filter recommended (routes ?resp)) = [''xrpl_direct'']"
    by (simp add: compareRoutes_recommended)
  have least: "\<forall>q \<in> set (routes ?resp). recommended q \<longrightarrow>
      (\<forall>p \<in> set (routes ?resp). number_le (fee q) (fee p))"
    using direct_fee_least [OF amount_value [OF assms(2,3)]] assms(3,9)
    by (auto simp: set_compareRoutes)
  show ?thesis
    by (intro exI conjI) (rule run, rule rate, rule quotes, rule ordered, rule one, rule least)
qed

text \<open>
  C5, witness: 100 USD to MXN, the upstream provider unreachable, so the fallback rate
  17.5 is used. The three quotes receive 1727.30, 1527.75 and 1654.54.
\<close>

theorem compare_routes_sorted_one_recommended_witness:
  "\<exists>resp.
     fst (compare_routes_handler new_exchange_service (\<lambda>f t. RequestFailed ''timeout'') (0, 0, 0) 0
       \<lparr>cb_amount = Some 100, cb_fromCurrency = Some ''USD'', cb_toCurrency = Some ''MXN''\<rparr>)
       = Inr resp \<and>
     midMarketRate resp = 35 / 2 \<and>
     mset (map (\<lambda>q. (route_type q, amountSent q, fee q, exchangeRate q, amountReceived q,
                     recommended q)) (routes resp)) =
       {#(''xrpl_direct'', Num 100, Num 1, Num (4911034656159171 / 281474976710656),
          Fixed 172730, True),
         (''bank_transfer'', Num 100, Num 10, Num (4778037729663385 / 281474976710656),
          Fixed 152775, False),
         (''competitor'', Num 100, Num (9 / 2), Num (4876553971512115 / 281474976710656),
          Fixed 165454, False)#} \<and>
     sorted_wrt
       (\<lambda>p q. number_le (parseFloat (amountReceived q)) (parseFloat (amountReceived p)))
       (routes resp) \<and>
     map route_type (filter recommended (routes resp)) = [''xrpl_direct''] \<and>
     (\<forall>q \<in> set (routes resp). recommended q \<longrightarrow>
        (\<forall>p \<in> set (routes resp). number_le (fee q) (fee p)))"
proof -
  have rate: "rate (fst (getRate new_exchange_service (\<lambda>f t. RequestFailed ''timeout'') (0, 0, 0)
      ''USD'' ''MXN'')) = 35 / 2"
    by (simp add: getRate_def new_exchange_service_def getMockRate_def mockRates_def
        cacheKey_def)
  have numbers: "double 100 = Num 100" "double (35 / 2) = Num (35 / 2)"
    by (simp_all add: number_eval)
  have quoted:
    "number_mul (Num 100) (double (1 / 100)) = Num 1"
    "number_add (number_mul (Num 100) (double (5 / 100))) (double 5) = Num 10"
    "number_add (number_mul (Num 100) (double (15 / 1000))) (double 3) = Num (9 / 2)"
    "number_mul (Num (35 / 2)) (double (997 / 1000)) = Num (4911034656159171 / 281474976710656)"
    "number_mul (Num (35 / 2)) (double (97 / 100)) = Num (4778037729663385 / 281474976710656)"
    "number_mul (Num (35 / 2)) (double (99 / 100)) = Num (4876553971512115 / 281474976710656)"
    "toFixed2 (number_mul (number_mul (number_sub (Num 100) (Num 1)) (Num (35 / 2)))
       (double (997 / 1000))) = Fixed 172730"
    "toFixed2 (number_mul (number_mul (number_sub (Num 100) (Num 10)) (Num (35 / 2)))
       (double (97 / 100))) = Fixed 152775"
    "toFixed2 (number_mul (number_mul (number_sub (Num 100) (Num (9 / 2))) (Num (35 / 2)))
       (double (99 / 100))) = Fixed 165454"
    by (simp_all add: route_eval number_eval)
  have "10 \<le> (100 :: rat)" "0 < (35 / 2 :: rat)"
    by simp_all
  from compare_routes_sorted_one_recommended [where body = "\<lparr>cb_amount = Some 100,
      cb_fromCurrency = Some ''USD'', cb_toCurrency = Some ''MXN''\<rparr>" and amount = 100
      and a = 100 and f = "''USD''" and t = "''MXN''" and svc = new_exchange_service
      and axios_get = "\<lambda>f t. RequestFailed ''timeout''" and ts = "(0, 0, 0)" and r = "35 / 2"
      and x = "35 / 2" and t_resp = 0, OF _ this(1) numbers(1) _ _ _ _ rate numbers(2) this(2)]
  show ?thesis
    by (simp only: quoted) simp
qed

subsection \<open>The scenario 100 USD to MXN at 17.5\<close>

text \<open>
  C6, as stated, fails: the direct quote of the scenario does not receive 1728.31. The
  handler computes \<open>(100 - 100 * 0.01) * 17.5 * 0.997\<close>, and \<open>toFixed(2)\<close> of that number
  is \<open>''1727.30''\<close>.
\<close>

theorem direct_route_scenario_received_counterexample:
  "map amountReceived
     (filter (\<lambda>q. route_type q = ''xrpl_direct'') (compareRoutes 100 (35 / 2)))
     = [Fixed 172730] \<and>
   Fixed 172730 \<noteq> Fixed 172831"
  by (simp add: route_eval number_eval)

text \<open>
  C6, amended. Every quote is sent the amount of the request, and per route: the direct
  fee is \<open>amount * 0.01\<close> and its rate \<open>rate * 0.997\<close>; the traditional fee is
  \<open>amount * 0.05 + 5\<close> and its rate \<open>rate * 0.97\<close>; the competitor fee is
  \<open>amount * 0.015 + 3\<close> and its rate \<open>rate * 0.99\<close>; the amount received is
  \<open>(amount - fee) * rate * factor\<close> with the factor of the route's rate, multiplied from
  the left, and printed with two decimals. Every operation is a binary64 operation. In
  the scenario the direct quote has fee 1, rate 17.4475 and receives 1727.30. The printed
  amount is the rounding of the computed number, not of the exact product: 500 at the
  rate 1 receives 493.51, where the exact \<open>(500 - 5) * 0.997 = 493.515\<close> would print as
  493.52.
\<close>

theorem direct_route_scenario:
  "(\<forall>q \<in> set (compareRoutes amount r).
      amountSent q = double amount \<and>
      (route_type q = ''xrpl_direct'' \<longrightarrow>
         fee q = number_mul (amountSent q) (double (1 / 100)) \<and>
         exchangeRate q = number_mul (double r) (double (997 / 1000)) \<and>
         amountReceived q =
           toFixed2 (number_mul (number_mul (number_sub (amountSent q) (fee q)) (double r))
             (double (997 / 1000)))) \<and>
      (route_type q = ''bank_transfer'' \<longrightarrow>
         fee q = number_add (number_mul (amountSent q) (double (5 / 100))) (double 5) \<and>
         exchangeRate q = number_mul (double r) (double (97 / 100)) \<and>
         amountReceived q =
           toFixed2 (number_mul (number_mul (number_sub (amountSent q) (fee q)) (double r))
             (double (97 / 100)))) \<and>
      (route_type q = ''competitor'' \<longrightarrow>
         fee q = number_add (number_mul (amountSent q) (double (15 / 1000))) (double 3) \<and>
         exchangeRate q = number_mul (double r) (double (99 / 100)) \<and>
         amountReceived q =
           toFixed2 (number_mul (number_mul (number_sub (amountSent q) (fee q)) (double r))
             (double (99 / 100))))) \<and>
   map (\<lambda>q. (route_type q, fee q, exchangeRate q, amountReceived q))
     (filter recommended (compareRoutes 100 (35 / 2))) =
     [(''xrpl_direct'', Num 1, double (174475 / 10000), Fixed 172730)] \<and>
   map amountReceived (filter recommended (compareRoutes 500 1)) = [Fixed 49351] \<and>
   toFixed2 (Num ((500 - 500 * (1 / 100)) * (1 * (997 / 1000)))) = Fixed 49352"
proof (intro conjI ballI impI)
  fix q
  assume q: "q \<in> set (compareRoutes amount r)"
  show "amountSent q = double amount"
    using q by (rule quote_formulas)
  {
    assume t: "route_type q = ''xrpl_direct''"
    from quote_formulas(2) [OF q t]
    show "fee q = number_mul (amountSent q) (double (1 / 100))"
      and "exchangeRate q = number_mul (double r) (double (997 / 1000))"
      and "amountReceived q =
           toFixed2 (number_mul (number_mul (number_sub (amountSent q) (fee q)) (double r))
             (double (997 / 1000)))"
      by blast+
  }
  {
    assume t: "route_type q = ''bank_transfer''"
    from quote_formulas(3) [OF q t]
    show "fee q = number_add (number_mul (amountSent q) (double (5 / 100))) (double 5)"
      and "exchangeRate q = number_mul (double r) (double (97 / 100))"
      and "amountReceived q =
           toFixed2 (number_mul (number_mul (number_sub (amountSent q) (fee q)) (double r))
             (double (97 / 100)))"
      by blast+
  }
  {
    assume t: "route_type q = ''competitor''"
    from quote_formulas(4) [OF q t]
    show "fee q = number_add (number_mul (amountSent q) (double (15 / 1000))) (double 3)"
      and "exchangeRate q = number_mul (double r) (double (99 / 100))"
      and "amountReceived q =
           toFixed2 (number_mul (number_mul (number_sub (amountSent q) (fee q)) (double r))
             (double (99 / 100)))"
      by blast+
  }
next
  show "map (\<lambda>q. (route_type q, fee q, exchangeRate q, amountReceived q))
     (filter recommended (compareRoutes 100 (35 / 2))) =
     [(''xrpl_direct'', Num 1, double (174475 / 10000), Fixed 172730)]"
    by (simp add: route_eval number_eval)
  show "map amountReceived (filter recommended (compareRoutes 500 1)) = [Fixed 49351]"
    by (simp add: route_eval number_eval)
  show "toFixed2 (Num ((500 - 500 * (1 / 100)) * (1 * (997 / 1000)))) = Fixed 49352"
    by (simp add: toFixed2_def)
qed

text \<open>C6, witness: the formulas of the direct route at the first quote of the scenario.\<close>

theorem direct_route_scenario_witness:
  "hd (compareRoutes 100 (35 / 2)) \<in> set (compareRoutes 100 (35 / 2)) \<and>
   route_type (hd (compareRoutes 100 (35 / 2))) = ''xrpl_direct'' \<and>
   fee (hd (compareRoutes 100 (35 / 2))) =
     number_mul (amountSent (hd (compareRoutes 100 (35 / 2)))) (double (1 / 100)) \<and>
   exchangeRate (hd (compareRoutes 100 (35 / 2))) =
     number_mul (double (35 / 2)) (double (997 / 1000)) \<and>
   amountReceived (hd (compareRoutes 100 (35 / 2))) =
     toFixed2 (number_mul
       (number_mul
         (number_sub (amountSent (hd (compareRoutes 100 (35 / 2))))
           (fee (hd (compareRoutes 100 (35 / 2)))))
         (double (35 / 2)))
       (double (997 / 1000)))"
proof -
  let ?rs = "compareRoutes 100 (35 / 2)"
  have types: "map route_type ?rs = [''xrpl_direct'', ''competitor'', ''bank_transfer'']"
    using arg_cong [OF compareRoutes_scenario, of "map fst"] by (simp add: comp_def)
  then have ne: "?rs \<noteq> []"
    by auto
  then have mem: "hd ?rs \<in> set ?rs"
    by simp
  from types ne have ty: "route_type (hd ?rs) = ''xrpl_direct''"
    by (simp add: hd_map [symmetric])
  from direct_route_scenario [of 100 "35 / 2"] mem ty show ?thesis
    by blast
qed

subsection \<open>Savings against the traditional route\<close>

text \<open>
  C8, as stated, fails in the percentage. In the scenario the direct quote's
  \<open>savingsPercent\<close> is \<open>''13.06''\<close> while savings / traditional * 100 is
  \<open>199.55 / 1527.75 * 100 = 13.0617...\<close>. It is not always the nearest hundredth either:
  for 43.46 at the rate 1 the savings are 7.70 and the traditional amount is 35.20, the
  exact percentage 21.875 would print as 21.88, and the handler returns \<open>''21.87''\<close>. And
  for 10 at the rate 0.001 the traditional amount prints as \<open>''0.00''\<close>, the division is
  by 0 and the percentages are \<open>''Infinity''\<close> and \<open>''NaN''\<close>.
\<close>

theorem savings_percent_counterexample:
  "(map (\<lambda>q. (route_type q, amountReceived q, savings q, savingsPercent q))
      (compareRoutes 100 (35 / 2)) =
      [(''xrpl_direct'', Fixed 172730, Fixed 19955, Some (Fixed 1306)),
       (''competitor'', Fixed 165454, Fixed 12679, Some (Fixed 830)),
       (''bank_transfer'', Fixed 152775, Fixed 0, Some (Fixed 0))] \<and>
    (1306 / 100 :: rat) \<noteq> (19955 / 100) / (152775 / 100) * 100) \<and>
   (map (\<lambda>q. (route_type q, amountReceived q, savings q, savingsPercent q))
      (compareRoutes (4346 / 100) 1) =
      [(''xrpl_direct'', Fixed 4290, Fixed 770, Some (Fixed 2187)),
       (''competitor'', Fixed 3941, Fixed 421, Some (Fixed 1196)),
       (''bank_transfer'', Fixed 3520, Fixed 0, Some (Fixed 0))] \<and>
    toFixed2 (Num ((770 / 100) / (3520 / 100) * 100)) = Fixed 2188) \<and>
   map (\<lambda>q. (route_type q, amountReceived q, savings q, savingsPercent q))
     (compareRoutes 10 (1 / 1000)) =
     [(''xrpl_direct'', Fixed 1, Fixed 1, Some InfinityString),
      (''competitor'', Fixed 1, Fixed 1, Some InfinityString),
      (''bank_transfer'', Fixed 0, Fixed 0, Some NaNString)]"
  by (simp add: route_eval number_eval)

text \<open>
  C8, amended. The response holds a traditional quote (\<open>bank_transfer\<close>). For every quote,
  \<open>savings\<close> is the difference of its amount received and the traditional amount received,
  both read back from their two decimals, printed with two decimals; when both amounts are
  below \<open>2 ^ 46\<close> hundredths in magnitude this is exactly the difference of the two
  decimals. The traditional quote's own savings are \<open>''0.00''\<close> whenever its amount is
  finite (and \<open>''NaN''\<close> when it is not). \<open>savingsPercent\<close> is the binary64 value of
  \<open>(saved / traditional) * 100\<close>, with \<open>saved\<close> the difference before it is printed,
  printed with two decimals.
\<close>

theorem savings_against_traditional:
  "(\<exists>tr \<in> set (compareRoutes amount r). route_type tr = ''bank_transfer'') \<and>
   (\<forall>q \<in> set (compareRoutes amount r). \<forall>tr \<in> set (compareRoutes amount r).
      route_type tr = ''bank_transfer'' \<longrightarrow>
        savings q =
          toFixed2 (number_sub (parseFloat (amountReceived q)) (parseFloat (amountReceived tr))) \<and>
        (\<forall>n m. amountReceived q = Fixed n \<and> amountReceived tr = Fixed m \<and>
           \<bar>n\<bar> < 2 ^ 46 \<and> \<bar>m\<bar> < 2 ^ 46 \<longrightarrow> savings q = Fixed (n - m)) \<and>
        (route_type q = ''bank_transfer'' \<longrightarrow>
           savings q =
             (if finite_value (parseFloat (amountReceived tr)) = None then NaNString
              else Fixed 0)) \<and>
        savingsPercent q =
          Some (toFixed2 (number_mul
            (number_div
              (number_sub (parseFloat (amountReceived q)) (parseFloat (amountReceived tr)))
              (parseFloat (amountReceived tr)))
            (double 100))))"
proof (intro conjI ballI impI allI)
  show "\<exists>tr \<in> set (compareRoutes amount r). route_type tr = ''bank_transfer''"
    by (rule traditional_present)
next
  fix q tr
  assume q: "q \<in> set (compareRoutes amount r)" and tr: "tr \<in> set (compareRoutes amount r)"
    and ty: "route_type tr = ''bank_transfer''"
  note T = traditional_in_compareRoutes [OF tr ty]
  show s: "savings q =
      toFixed2 (number_sub (parseFloat (amountReceived q)) (parseFloat (amountReceived tr)))"
    unfolding T by (rule savings_in_compareRoutes(1) [OF q])
  show "savingsPercent q =
          Some (toFixed2 (number_mul
            (number_div
              (number_sub (parseFloat (amountReceived q)) (parseFloat (amountReceived tr)))
              (parseFloat (amountReceived tr)))
            (double 100)))"
    unfolding T by (rule savings_in_compareRoutes(2) [OF q])
  {
    fix n m
    assume "amountReceived q = Fixed n \<and> amountReceived tr = Fixed m \<and>
           \<bar>n\<bar> < 2 ^ 46 \<and> \<bar>m\<bar> < 2 ^ 46"
    then show "savings q = Fixed (n - m)"
      unfolding s by (simp add: savings_exact)
  }
  {
    assume "route_type q = ''bank_transfer''"
    with q have "amountReceived q = amountReceived tr"
      unfolding T by (rule traditional_in_compareRoutes)
    then show "savings q =
             (if finite_value (parseFloat (amountReceived tr)) = None then NaNString
              else Fixed 0)"
      unfolding s by (simp only: savings_self)
  }
qed

text \<open>C8, witness: the direct and the traditional quote of the scenario.\<close>

theorem savings_against_traditional_witness:
  "compareRoutes 100 (35 / 2) ! 0 \<in> set (compareRoutes 100 (35 / 2)) \<and>
   compareRoutes 100 (35 / 2) ! 2 \<in> set (compareRoutes 100 (35 / 2)) \<and>
   route_type (compareRoutes 100 (35 / 2) ! 2) = ''bank_transfer'' \<and>
   amountReceived (compareRoutes 100 (35 / 2) ! 0) = Fixed 172730 \<and>
   amountReceived (compareRoutes 100 (35 / 2) ! 2) = Fixed 152775 \<and>
   savings (compareRoutes 100 (35 / 2) ! 0) =
     toFixed2 (number_sub (parseFloat (amountReceived (compareRoutes 100 (35 / 2) ! 0)))
       (parseFloat (amountReceived (compareRoutes 100 (35 / 2) ! 2)))) \<and>
   savings (compareRoutes 100 (35 / 2) ! 0) = Fixed (172730 - 152775) \<and>
   savings (compareRoutes 100 (35 / 2) ! 2) = Fixed 0 \<and>
   savingsPercent (compareRoutes 100 (35 / 2) ! 0) =
     Some (toFixed2 (number_mul
       (number_div
         (number_sub (parseFloat (amountReceived (compareRoutes 100 (35 / 2) ! 0)))
           (parseFloat (amountReceived (compareRoutes 100 (35 / 2) ! 2))))
         (parseFloat (amountReceived (compareRoutes 100 (35 / 2) ! 2))))
       (double 100)))"
proof -
  let ?rs = "compareRoutes 100 (35 / 2)"
  have len: "length ?rs = 3"
    using arg_cong [OF compareRoutes_scenario, of length] by simp
  then have mem: "?rs ! 0 \<in> set ?rs" "?rs ! 2 \<in> set ?rs"
    by simp_all
  have first: "amountReceived (?rs ! 0) = Fixed 172730"
    using arg_cong [OF compareRoutes_scenario, of "\<lambda>xs. xs ! 0"] len by simp
  have last: "route_type (?rs ! 2) = ''bank_transfer''" "amountReceived (?rs ! 2) = Fixed 152775"
    using arg_cong [OF compareRoutes_scenario, of "\<lambda>xs. xs ! 2"] len by simp_all
  have finite: "finite_value (parseFloat (Fixed 152775)) \<noteq> None"
    by (simp add: parseFloat_def finite_value_def number_eval)
  have small: "\<bar>172730 :: int\<bar> < 2 ^ 46" "\<bar>152775 :: int\<bar> < 2 ^ 46"
    by simp_all
  from savings_against_traditional [of 100 "35 / 2"] mem last(1)
  have diff: "savings (?rs ! 0) =
          toFixed2 (number_sub (parseFloat (amountReceived (?rs ! 0)))
            (parseFloat (amountReceived (?rs ! 2))))"
    and exact: "\<forall>n m. amountReceived (?rs ! 0) = Fixed n \<and> amountReceived (?rs ! 2) = Fixed m \<and>
           \<bar>n\<bar> < 2 ^ 46 \<and> \<bar>m\<bar> < 2 ^ 46 \<longrightarrow> savings (?rs ! 0) = Fixed (n - m)"
    and self: "savings (?rs ! 2) =
             (if finite_value (parseFloat (amountReceived (?rs ! 2))) = None then NaNString
              else Fixed 0)"
    and percent: "savingsPercent (?rs ! 0) =
          Some (toFixed2 (number_mul
            (number_div
              (number_sub (parseFloat (amountReceived (?rs ! 0)))
                (parseFloat (amountReceived (?rs ! 2))))
              (parseFloat (amountReceived (?rs ! 2))))
            (double 100)))"
    by blast+
  from exact first last(2) small have cents: "savings (?rs ! 0) = Fixed (172730 - 152775)"
    by blast
  from self finite have zero: "savings (?rs ! 2) = Fixed 0"
    unfolding last(2) by simp
  show ?thesis
    by (intro conjI) (rule mem(1), rule mem(2), rule last(1), rule first, rule last(2),
      rule diff, rule cents, rule zero, rule percent)
qed

section \<open>Properties of the cancel handler\<close>

lemma find_map_preserved:
  assumes "\<And>r. P (g r) = P r"
  shows "find P (map (\<lambda>r. if Q r then g r else r) xs) =
         map_option (\<lambda>r. if Q r then g r else r) (find P xs)"
  using assms by (induction xs) auto

lemma find_update_transactions:
  assumes "\<And>r. tx_id (f r) = tx_id r" and "\<And>r. sender_id (f r) = sender_id r"
  shows "find (\<lambda>r. tx_id r = i \<and> sender_id r = u) (transactions (update_transactions j f s)) =
         map_option (\<lambda>r. if tx_id r = j then f r else r)
           (find (\<lambda>r. tx_id r = i \<and> sender_id r = u) (transactions s))"
  unfolding update_transactions_def using assms
  by (simp add: find_map_preserved [where P = "\<lambda>r. tx_id r = i \<and> sender_id r = u"])

lemma find_Some_holds: "find P xs = Some x \<Longrightarrow> P x \<and> x \<in> set xs"
  by (induction xs) (auto split: if_splits)

text \<open>
  C3. For a transaction that exists and belongs to the caller, the cancel handler succeeds
  if and only if its status is exactly \<open>pending\<close>, and then the status becomes \<open>failed\<close>;
  for any other status (so for \<open>processing\<close>, \<open>completed\<close> and \<open>failed\<close>) it answers 400
  with a message that carries the current status, and the store is unchanged.
\<close>

theorem cancel_only_pending:
  assumes "find (\<lambda>r. tx_id r = i \<and> sender_id r = userId) (transactions s) = Some tx"
  shows "((\<exists>resp s'. cancel s userId i = (Inr resp, s')) \<longleftrightarrow> status tx = ''pending'') \<and>
         (status tx = ''pending'' \<longrightarrow>
            (\<exists>resp s'. cancel s userId i = (Inr resp, s') \<and>
               find (\<lambda>r. tx_id r = i \<and> sender_id r = userId) (transactions s') =
                 Some (tx\<lparr>status := ''failed'', tx_notes := Some ''Cancelled by user''\<rparr>))) \<and>
         (status tx \<noteq> ''pending'' \<longrightarrow>
            cancel s userId i = (Inl (InvalidStateTransition (status tx)), s) \<and>
            InvalidStateTransition (status tx) =
              HttpError 400 (''Cannot cancel transaction with status: '' @ status tx))"
proof -
  from assms have i: "tx_id tx = i"
    by (auto dest: find_Some_holds)
  have pending: "cancel s userId i =
      (Inr \<lparr>cancel_message = ''Transaction cancelled successfully'', cancel_transactionId = i\<rparr>,
       update_transactions i
         (\<lambda>r. r\<lparr>status := ''failed'', tx_notes := Some ''Cancelled by user''\<rparr>) s)"
    if "status tx = ''pending''"
    using assms that by (simp add: cancel_def)
  have other: "cancel s userId i = (Inl (InvalidStateTransition (status tx)), s)"
    if "status tx \<noteq> ''pending''"
    using assms that by (simp add: cancel_def)
  have found: "find (\<lambda>r. tx_id r = i \<and> sender_id r = userId)
      (transactions (update_transactions i
         (\<lambda>r. r\<lparr>status := ''failed'', tx_notes := Some ''Cancelled by user''\<rparr>) s)) =
      Some (tx\<lparr>status := ''failed'', tx_notes := Some ''Cancelled by user''\<rparr>)"
    using assms i by (simp add: find_update_transactions)
  show ?thesis
  proof (cases "status tx = ''pending''")
    case True
    with pending found show ?thesis by simp
  next
    case False
    with other show ?thesis by (simp add: InvalidStateTransition_def)
  qed
qed


text \<open>
  C3, witness: a pending transaction is cancelled, a processing one is refused and the
  store is left as it was.
\<close>

theorem cancel_only_pending_witness:
  "(\<exists>resp.
      cancel \<lparr>recipients = [], payment_methods = [],
               transactions =
                 [\<lparr>tx_id = 7, sender_id = 1, recipient_id = 2, payment_method_id = 3,
                   amount_sent = 100, currency_sent = ''USD'', amount_received = None,
                   currency_received = ''MXN'', exchange_rate = Some (6979 / 400),
                   tx_fee = Some 1, xrpl_tx_hash = None, status = ''pending'',
                   tx_route_type = Some ''xrpl_direct'', created_at = 1000,
                   completed_at = None, tx_notes = None\<rparr>],
               transactions_id_seq = 8\<rparr> 1 7 =
        (Inr resp,
         \<lparr>recipients = [], payment_methods = [],
               transactions =
                 [\<lparr>tx_id = 7, sender_id = 1, recipient_id = 2, payment_method_id = 3,
                   amount_sent = 100, currency_sent = ''USD'', amount_received = None,
                   currency_received = ''MXN'', exchange_rate = Some (6979 / 400),
                   tx_fee = Some 1, xrpl_tx_hash = None, status = ''failed'',
                   tx_route_type = Some ''xrpl_direct'', created_at = 1000,
                   completed_at = None, tx_notes = Some ''Cancelled by user''\<rparr>],
               transactions_id_seq = 8\<rparr>)) \<and>
   cancel \<lparr>recipients = [], payment_methods = [],
               transactions =
                 [\<lparr>tx_id = 7, sender_id = 1, recipient_id = 2, payment_method_id = 3,
                   amount_sent = 100, currency_sent = ''USD'', amount_received = None,
                   currency_received = ''MXN'', exchange_rate = Some (6979 / 400),
                   tx_fee = Some 1, xrpl_tx_hash = None, status = ''processing'',
                   tx_route_type = Some ''xrpl_direct'', created_at = 1000,
                   completed_at = None, tx_notes = None\<rparr>],
               transactions_id_seq = 8\<rparr> 1 7 =
     (Inl (HttpError 400 ''Cannot cancel transaction with status: processing''),
      \<lparr>recipients = [], payment_methods = [],
               transactions =
                 [\<lparr>tx_id = 7, sender_id = 1, recipient_id = 2, payment_method_id = 3,
                   amount_sent = 100, currency_sent = ''USD'', amount_received = None,
                   currency_received = ''MXN'', exchange_rate = Some (6979 / 400),
                   tx_fee = Some 1, xrpl_tx_hash = None, status = ''processing'',
                   tx_route_type = Some ''xrpl_direct'', created_at = 1000,
                   completed_at = None, tx_notes = None\<rparr>],
               transactions_id_seq = 8\<rparr>)"
proof (intro conjI)
  let ?row = "\<lambda>st nt. \<lparr>tx_id = 7, sender_id = 1, recipient_id = 2, payment_method_id = 3,
                   amount_sent = 100, currency_sent = ''USD'', amount_received = None,
                   currency_received = ''MXN'', exchange_rate = Some (6979 / 400),
                   tx_fee = Some 1, xrpl_tx_hash = None, status = st,
                   tx_route_type = Some ''xrpl_direct'', created_at = 1000,
                   completed_at = None, tx_notes = nt\<rparr>"
  let ?s = "\<lambda>st nt. \<lparr>recipients = [], payment_methods = [], transactions = [?row st nt],
               transactions_id_seq = 8\<rparr>"
  have a: "find (\<lambda>r. tx_id r = 7 \<and> sender_id r = 1) (transactions (?s ''pending'' None))
      = Some (?row ''pending'' None)"
    by simp
  from cancel_only_pending [OF a]
  have "\<exists>resp s'. cancel (?s ''pending'' None) 1 7 = (Inr resp, s')"
    by simp
  then show "\<exists>resp. cancel (?s ''pending'' None) 1 7 =
      (Inr resp, ?s ''failed'' (Some ''Cancelled by user''))"
    by (auto simp: cancel_def update_transactions_def)
  have b: "find (\<lambda>r. tx_id r = 7 \<and> sender_id r = 1) (transactions (?s ''processing'' None))
      = Some (?row ''processing'' None)"
    by simp
  from cancel_only_pending [OF b]
  show "cancel (?s ''processing'' None) 1 7 =
      (Inl (HttpError 400 ''Cannot cancel transaction with status: processing''),
       ?s ''processing'' None)"
    by (simp add: InvalidStateTransition_def)
qed

section \<open>Properties of the create handler\<close>

lemma create_transaction_valid:
  fixes svc axios_get ts db_now t_resp s userId body
  assumes present: "\<not> (falsy_int (req_recipientId body) \<or> falsy_int (req_paymentMethodId body)
       \<or> falsy_num (req_amount body) \<or> falsy_str (req_fromCurrency body)
       \<or> falsy_str (req_toCurrency body) \<or> falsy_str (req_routeType body))"
    and range: "10 \<le> the (req_amount body)" "the (req_amount body) \<le> 10000"
    and recipient: "filter (\<lambda>r. rcp_id r = the (req_recipientId body) \<and> rcp_user_id r = userId)
           (recipients s) \<noteq> []"
    and paid: "filter (\<lambda>p. pm_id p = the (req_paymentMethodId body) \<and> pm_user_id p = userId)
           (payment_methods s) \<noteq> []"
  defines "rate' \<equiv> rate (fst (getRate svc axios_get ts (the (req_fromCurrency body))
                     (the (req_toCurrency body)))) * (997 / 1000)"
  defines "row \<equiv> \<lparr>tx_id = transactions_id_seq s, sender_id = userId,
       recipient_id = the (req_recipientId body),
       payment_method_id = the (req_paymentMethodId body),
       amount_sent = the (req_amount body), currency_sent = the (req_fromCurrency body),
       amount_received = None, currency_received = the (req_toCurrency body),
       exchange_rate = Some rate', tx_fee = Some (the (req_amount body) * (1 / 100)),
       xrpl_tx_hash = None, status = ''processing'',
       tx_route_type = Some (the (req_routeType body)), created_at = db_now,
       completed_at = None,
       tx_notes = (if falsy_str (req_notes body) then None else req_notes body)\<rparr>"
  shows "create_transaction svc axios_get ts db_now t_resp s userId body =
       (Inr \<lparr>transactionId = transactions_id_seq s, resp_status = ''processing'',
              message = ''Transaction initiated successfully'',
              estimatedCompletion = t_resp + 10 * 60 * 1000\<rparr>,
        s\<lparr>transactions := transactions s @ [row],
          transactions_id_seq := transactions_id_seq s + 1\<rparr>,
        snd (getRate svc axios_get ts (the (req_fromCurrency body)) (the (req_toCurrency body))),
        Some \<lparr>bg_transactionId = transactions_id_seq s, bg_senderId = userId,
               bg_recipientId = the (req_recipientId body),
               bg_paymentMethodId = the (req_paymentMethodId body),
               bg_amount = the (req_amount body),
               bg_fromCurrency = the (req_fromCurrency body),
               bg_toCurrency = the (req_toCurrency body),
               bg_exchangeRate = rate',
               bg_amountReceived =
                 (the (req_amount body) - the (req_amount body) * (1 / 100)) * rate'\<rparr>)"
proof -
  from range have "\<not> (the (req_amount body) < 10 \<or> the (req_amount body) > 10000)"
    by auto
  with present recipient paid show ?thesis
    unfolding create_transaction_def insert_transaction_def rate'_def row_def
    by (simp add: Let_def split: prod.splits)
qed

lemma create_transaction_error:
  "create_transaction svc axios_get ts db_now t_resp s userId body = (Inl e, s', svc', bg) \<Longrightarrow>
   s' = s \<and> svc' = svc \<and> bg = None"
  by (auto simp: create_transaction_def insert_transaction_def Let_def
      split: if_splits prod.splits)


text \<open>
  C4. The create handler validates in this order, and each failure leaves the store and
  the rate service untouched and starts no background call: a missing required field
  gives \<open>MissingFields\<close>; then an amount below 10 or above 10000 gives \<open>AmountOutOfRange\<close>;
  then a recipient id that is not a recipient of the caller gives \<open>RecipientNotFound\<close>;
  then a payment method id that is not a payment method of the caller gives
  \<open>PaymentMethodNotFound\<close>; otherwise a transaction row is inserted. The four failures
  are distinct responses.
\<close>

theorem create_validation_order:
  fixes svc axios_get ts db_now t_resp s userId body
  defines "missing \<equiv>
      falsy_int (req_recipientId body) \<or> falsy_int (req_paymentMethodId body)
       \<or> falsy_num (req_amount body) \<or> falsy_str (req_fromCurrency body)
       \<or> falsy_str (req_toCurrency body) \<or> falsy_str (req_routeType body)"
    and "in_range \<equiv> 10 \<le> the (req_amount body) \<and> the (req_amount body) \<le> 10000"
    and "owned_recipient \<equiv>
      filter (\<lambda>r. rcp_id r = the (req_recipientId body) \<and> rcp_user_id r = userId)
        (recipients s) \<noteq> []"
    and "owned_method \<equiv>
      filter (\<lambda>p. pm_id p = the (req_paymentMethodId body) \<and> pm_user_id p = userId)
        (payment_methods s) \<noteq> []"
    and "result \<equiv> create_transaction svc axios_get ts db_now t_resp s userId body"
  shows "(missing \<longrightarrow> result = (Inl MissingFields, s, svc, None)) \<and>
         (\<not> missing \<and> \<not> in_range \<longrightarrow> result = (Inl AmountOutOfRange, s, svc, None)) \<and>
         (\<not> missing \<and> in_range \<and> \<not> owned_recipient \<longrightarrow>
            result = (Inl RecipientNotFound, s, svc, None)) \<and>
         (\<not> missing \<and> in_range \<and> owned_recipient \<and> \<not> owned_method \<longrightarrow>
            result = (Inl PaymentMethodNotFound, s, svc, None)) \<and>
         (\<not> missing \<and> in_range \<and> owned_recipient \<and> owned_method \<longrightarrow>
            (\<exists>resp s' svc' bg. result = (Inr resp, s', svc', Some bg) \<and>
               length (transactions s') = length (transactions s) + 1)) \<and>
         distinct [MissingFields, AmountOutOfRange, RecipientNotFound, PaymentMethodNotFound]"
proof (intro conjI impI)
  assume missing
  then show "result = (Inl MissingFields, s, svc, None)"
    unfolding result_def missing_def create_transaction_def by (simp only: if_True)
next
  assume "\<not> missing \<and> \<not> in_range"
  then show "result = (Inl AmountOutOfRange, s, svc, None)"
    unfolding result_def missing_def in_range_def create_transaction_def
    by (auto simp: Let_def)
next
  assume "\<not> missing \<and> in_range \<and> \<not> owned_recipient"
  then show "result = (Inl RecipientNotFound, s, svc, None)"
    unfolding result_def missing_def in_range_def owned_recipient_def create_transaction_def
    by (auto simp: Let_def)
next
  assume "\<not> missing \<and> in_range \<and> owned_recipient \<and> \<not> owned_method"
  then show "result = (Inl PaymentMethodNotFound, s, svc, None)"
    unfolding result_def missing_def in_range_def owned_recipient_def owned_method_def
      create_transaction_def
    by (auto simp: Let_def)
next
  assume "\<not> missing \<and> in_range \<and> owned_recipient \<and> owned_method"
  then show "\<exists>resp s' svc' bg. result = (Inr resp, s', svc', Some bg) \<and>
               length (transactions s') = length (transactions s) + 1"
    unfolding result_def missing_def in_range_def owned_recipient_def owned_method_def
    by (simp add: create_transaction_valid)
next
  show "distinct [MissingFields, AmountOutOfRange, RecipientNotFound, PaymentMethodNotFound]"
    by (simp add: MissingFields_def AmountOutOfRange_def RecipientNotFound_def
        PaymentMethodNotFound_def)
qed

lemma example_request_simps [simp]:
  "req_recipientId (example_request a) = Some 1"
  "req_paymentMethodId (example_request a) = Some 1"
  "req_amount (example_request a) = Some a"
  "req_fromCurrency (example_request a) = Some ''USD''"
  "req_toCurrency (example_request a) = Some ''MXN''"
  "req_routeType (example_request a) = Some ''xrpl_direct''"
  "req_notes (example_request a) = None"
  by (simp_all add: example_request_def)

lemma example_store_simps [simp]:
  "recipients example_store =
     [\<lparr>rcp_id = 1, rcp_user_id = 1, payout_type = ''bank'', bank_name = Some ''BBVA''\<rparr>]"
  "payment_methods example_store = [\<lparr>pm_id = 1, pm_user_id = 1\<rparr>]"
  "transactions example_store = []"
  "transactions_id_seq example_store = 1"
  by (simp_all add: example_store_def)

text \<open>
  C4, witness: the amounts 5 and 10000.01 are out of range, 10 and 10000 are accepted;
  a request without a target currency, a request of user 2 for the recipient of user 1
  and a request with a payment method nobody owns fail with their own errors.
\<close>

theorem create_validation_order_witness:
  "fst (create_transaction new_exchange_service (\<lambda>f t. RequestFailed ''timeout'') (0, 0, 0)
          1000 1000 example_store 1 (example_request 5)) = Inl AmountOutOfRange \<and>
   fst (create_transaction new_exchange_service (\<lambda>f t. RequestFailed ''timeout'') (0, 0, 0)
          1000 1000 example_store 1 (example_request (1000001 / 100))) = Inl AmountOutOfRange \<and>
   (\<exists>resp. fst (create_transaction new_exchange_service (\<lambda>f t. RequestFailed ''timeout'')
          (0, 0, 0) 1000 1000 example_store 1 (example_request 10)) = Inr resp) \<and>
   (\<exists>resp. fst (create_transaction new_exchange_service (\<lambda>f t. RequestFailed ''timeout'')
          (0, 0, 0) 1000 1000 example_store 1 (example_request 10000)) = Inr resp) \<and>
   fst (create_transaction new_exchange_service (\<lambda>f t. RequestFailed ''timeout'') (0, 0, 0)
          1000 1000 example_store 1 ((example_request 5)\<lparr>req_toCurrency := None\<rparr>))
     = Inl MissingFields \<and>
   fst (create_transaction new_exchange_service (\<lambda>f t. RequestFailed ''timeout'') (0, 0, 0)
          1000 1000 example_store 2 (example_request 100)) = Inl RecipientNotFound \<and>
   fst (create_transaction new_exchange_service (\<lambda>f t. RequestFailed ''timeout'') (0, 0, 0)
          1000 1000 example_store 1 ((example_request 100)\<lparr>req_paymentMethodId := Some 2\<rparr>))
     = Inl PaymentMethodNotFound"
proof -
  note order = create_validation_order [of _ new_exchange_service
      "\<lambda>f t. RequestFailed ''timeout''" "(0, 0, 0)" 1000 1000 example_store]
  show ?thesis
    using order [of "example_request 5" 1] order [of "example_request (1000001 / 100)" 1]
      order [of "example_request 10" 1] order [of "example_request 10000" 1]
      order [of "(example_request 5)\<lparr>req_toCurrency := None\<rparr>" 1]
      order [of "example_request 100" 2]
      order [of "(example_request 100)\<lparr>req_paymentMethodId := Some 2\<rparr>" 1]
    by auto
qed

section \<open>Invariants of the store\<close>

lemma create_transaction_store:
  assumes "create_transaction svc axios_get ts db_now t_resp s userId body = (resp, s', svc', bg)"
  shows "s' = s \<or>
         (\<exists>row. s' = s\<lparr>transactions := transactions s @ [row],
                        transactions_id_seq := transactions_id_seq s + 1\<rparr> \<and>
                tx_id row = transactions_id_seq s \<and> status row = ''processing'')"
  using assms
  by (auto simp: create_transaction_def insert_transaction_def Let_def
      split: if_splits prod.splits)

lemma processTransaction_writes:
  "\<exists>f. processTransaction ad now s i senderId recipientId paymentMethodId amount fromCurrency
       toCurrency rate' received = update_transactions i f s \<and>
       (\<forall>r. tx_id (f r) = tx_id r \<and> status (f r) \<in> {''completed'', ''failed''})"
proof -
  let ?done = "\<lambda>h. (\<lambda>r. r\<lparr>status := ''completed'', amount_received := Some received,
              xrpl_tx_hash := Some h, completed_at := Some now\<rparr>)"
  let ?fail = "\<lambda>msg. (\<lambda>r. r\<lparr>status := ''failed'', tx_notes := Some (''Error: '' @ msg)\<rparr>)"
  have "(\<exists>h. processTransaction ad now s i senderId recipientId paymentMethodId amount
          fromCurrency toCurrency rate' received = update_transactions i (?done h) s) \<or>
        (\<exists>msg. processTransaction ad now s i senderId recipientId paymentMethodId amount
          fromCurrency toCurrency rate' received = update_transactions i (?fail msg) s)"
    unfolding processTransaction_def Let_def
    by (simp split: sum.splits) blast
  then show ?thesis
  proof (elim disjE exE)
    fix h
    assume "processTransaction ad now s i senderId recipientId paymentMethodId amount
          fromCurrency toCurrency rate' received = update_transactions i (?done h) s"
    then show ?thesis
      by (intro exI [of _ "?done h"]) simp
  next
    fix msg
    assume "processTransaction ad now s i senderId recipientId paymentMethodId amount
          fromCurrency toCurrency rate' received = update_transactions i (?fail msg) s"
    then show ?thesis
      by (intro exI [of _ "?fail msg"]) simp
  qed
qed

lemma cancel_writes:
  assumes "cancel s userId i = (resp, s')"
  shows "s' = s \<or>
         s' = update_transactions i
                (\<lambda>r. r\<lparr>status := ''failed'', tx_notes := Some ''Cancelled by user''\<rparr>) s"
  using assms by (auto simp: cancel_def split: option.splits if_splits)

lemma transactions_update_transactions [simp]:
  "transactions (update_transactions i f s) =
     map (\<lambda>r. if tx_id r = i then f r else r) (transactions s)"
  "transactions_id_seq (update_transactions i f s) = transactions_id_seq s"
  "recipients (update_transactions i f s) = recipients s"
  "payment_methods (update_transactions i f s) = payment_methods s"
  by (simp_all add: update_transactions_def)

lemma reachable_status: "reachable s \<Longrightarrow>
  \<forall>r \<in> set (transactions s). status r \<in> {''processing'', ''completed'', ''failed''}"
proof (induction rule: reachable.induct)
  case (initial s)
  then show ?case by simp
next
  case (add_recipient s r)
  then show ?case by simp
next
  case (add_payment_method s p)
  then show ?case by simp
next
  case (created s svc axios_get ts db_now t_resp userId body resp s' svc' bg)
  from create_transaction_store [OF created.hyps(2)] created.IH show ?case
    by auto
next
  case (processed s ad now i senderId recipientId paymentMethodId amount fromCurrency
      toCurrency rate' received)
  obtain f where f: "processTransaction ad now s i senderId recipientId paymentMethodId
      amount fromCurrency toCurrency rate' received = update_transactions i f s"
      "\<And>r. status (f r) \<in> {''completed'', ''failed''}"
    using processTransaction_writes [of ad now s i senderId recipientId paymentMethodId
        amount fromCurrency toCurrency rate' received]
    by auto
  show ?case
    unfolding f(1) using processed.IH f(2) by auto
next
  case (cancelled s userId i resp s')
  from cancel_writes [OF cancelled.hyps(2)] cancelled.IH show ?case
    by auto
qed


lemma create_transaction_success:
  assumes "create_transaction svc axios_get ts db_now t_resp s userId body =
             (Inr resp, s1, svc1, bg)"
  shows "\<exists>row. s1 = s\<lparr>transactions := transactions s @ [row],
                       transactions_id_seq := transactions_id_seq s + 1\<rparr> \<and>
           transactionId resp = transactions_id_seq s \<and> resp_status resp = ''processing'' \<and>
           tx_id row = transactions_id_seq s \<and> sender_id row = userId \<and>
           status row = ''processing'' \<and> amount_received row = None \<and>
           xrpl_tx_hash row = None \<and> completed_at row = None \<and> created_at row = db_now \<and>
           (\<exists>b. bg = Some b \<and> bg_transactionId b = transactions_id_seq s \<and>
                bg_senderId b = userId \<and>
                bg_recipientId b = the (req_recipientId body) \<and>
                bg_amount b = the (req_amount body))"
  using assms
  by (auto simp: create_transaction_def insert_transaction_def Let_def
      split: if_splits prod.splits)

lemma cancel_success_pending:
  assumes "cancel s userId i = (Inr resp, s')"
  shows "\<exists>tx \<in> set (transactions s). status tx = ''pending''"
proof -
  from assms obtain tx where
    "find (\<lambda>r. tx_id r = i \<and> sender_id r = userId) (transactions s) = Some tx"
    and "status tx = ''pending''"
    by (auto simp: cancel_def split: option.splits if_splits)
  then show ?thesis
    by (auto dest: find_Some_holds)
qed

lemma example_request_accepted:
  "\<exists>resp. fst (create_transaction new_exchange_service (\<lambda>f t. RequestFailed ''timeout'')
          (0, 0, 0) 1000 1000 example_store 1 (example_request 100)) = Inr resp"
  using create_transaction_valid [of "example_request 100" 1 example_store
      new_exchange_service "\<lambda>f t. RequestFailed ''timeout''" "(0, 0, 0)" 1000 1000]
  by simp

text \<open>
  C10. A transaction the create handler persists has status \<open>processing\<close>, and so has its
  response. In every store the routes can produce from an empty transactions table no
  transaction is \<open>pending\<close>, so no call of the cancel handler, by any user for any id,
  succeeds.
\<close>

theorem created_never_cancellable:
  "(create_transaction svc axios_get ts db_now t_resp s0 userId body =
      (Inr resp, s1, svc1, bg) \<longrightarrow>
      resp_status resp = ''processing'' \<and>
      (\<exists>row. transactions s1 = transactions s0 @ [row] \<and> tx_id row = transactionId resp \<and>
             status row = ''processing'')) \<and>
   (reachable s \<longrightarrow>
      (\<forall>r \<in> set (transactions s). status r \<noteq> ''pending'') \<and>
      (\<forall>u i resp' s'. cancel s u i \<noteq> (Inr resp', s')))"
proof (intro conjI impI)
  assume "create_transaction svc axios_get ts db_now t_resp s0 userId body =
      (Inr resp, s1, svc1, bg)"
  from create_transaction_success [OF this]
  show "resp_status resp = ''processing''"
    and "\<exists>row. transactions s1 = transactions s0 @ [row] \<and> tx_id row = transactionId resp \<and>
             status row = ''processing''"
    by auto
next
  assume "reachable s"
  from reachable_status [OF this]
  show none: "\<forall>r \<in> set (transactions s). status r \<noteq> ''pending''"
    by auto
  show "\<forall>u i resp' s'. cancel s u i \<noteq> (Inr resp', s')"
    using none by (blast dest: cancel_success_pending)
qed


text \<open>
  C10, witness: user 1 creates a transaction in the example store; the store then
  holds one transaction, with status \<open>processing\<close>, and the same user's cancellation of it
  is refused.
\<close>

theorem created_never_cancellable_witness:
  "\<exists>resp s1 svc1 bg.
     create_transaction new_exchange_service (\<lambda>f t. RequestFailed ''timeout'') (0, 0, 0)
       1000 1000 example_store 1 (example_request 100) = (Inr resp, s1, svc1, bg) \<and>
     reachable s1 \<and>
     map status (transactions s1) = [''processing''] \<and>
     fst (cancel s1 1 (transactionId resp)) = Inl (InvalidStateTransition ''processing'')"
proof -
  obtain res s1 svc1 bg where run:
    "create_transaction new_exchange_service (\<lambda>f t. RequestFailed ''timeout'') (0, 0, 0)
       1000 1000 example_store 1 (example_request 100) = (res, s1, svc1, bg)"
    by (metis prod_cases4)
  have "\<exists>resp. res = Inr resp"
    using example_request_accepted run by simp
  then obtain resp where res: "res = Inr resp"
    by blast
  note claim = created_never_cancellable [of new_exchange_service
      "\<lambda>f t. RequestFailed ''timeout''" "(0, 0, 0)" 1000 1000 example_store 1
      "example_request 100" resp s1 svc1 bg s1]
  have "reachable example_store"
    by (rule reachable.initial) simp
  then have reach: "reachable s1"
    using run by (rule reachable.created)
  from claim run res obtain row where row: "transactions s1 = [row]"
    "tx_id row = transactionId resp" "status row = ''processing''"
    by auto
  from create_transaction_success [OF run [unfolded res]]
  have sender: "sender_id row = 1"
    using row by auto
  from claim reach have "\<forall>resp' s'. cancel s1 1 (transactionId resp) \<noteq> (Inr resp', s')"
    by blast
  then have "fst (cancel s1 1 (transactionId resp)) = Inl (InvalidStateTransition ''processing'')"
    using row sender by (simp add: cancel_def)
  with run res reach row show ?thesis
    by simp
qed

section \<open>Properties of the background pipeline\<close>













section \<open>Properties of the rate cache\<close>


lemma cacheKey_collision: "cacheKey ''A_A'' ''A'' = cacheKey ''A'' ''A_A''"
  by (simp add: cacheKey_def)







end
